theory Spec2Isabelle
  imports Main
begin

section \<open>Nagios performance data: parsing and rendering (perfdata.go)\<close>

text \<open>
  A shallow embedding of \<^verbatim>\<open>src/perfdata.go\<close>. A Go string is modelled by the list of
  its characters, a character being a code point in the range U+0000..U+00FF (the type
  \<^typ>\<open>char\<close>); every library function the file calls (\<^verbatim>\<open>strings.TrimSpace\<close>,
  \<^verbatim>\<open>strings.Trim\<close>, \<^verbatim>\<open>strings.Fields\<close>, \<^verbatim>\<open>strings.Split\<close>, \<^verbatim>\<open>strings.SplitN\<close>,
  \<^verbatim>\<open>strings.ContainsAny\<close> and the \<^verbatim>\<open>regexp\<close> matchers) works character by character,
  and all separators of the format are ASCII. An \<^verbatim>\<open>error\<close> result is a value of the
  datatype \<open>error\<close>; \<^verbatim>\<open>nil\<close> is \<open>None\<close>, and a function returning a value and an
  error returns a sum, \<open>Inl\<close> holding the error.
\<close>

subsection \<open>Errors\<close>

text \<open>
  Modelled from the spec: the sentinel errors \<^verbatim>\<open>ErrInvalidPerformanceDataFormat\<close>,
  \<^verbatim>\<open>ErrPerformanceDataMissingLabel\<close> and \<^verbatim>\<open>ErrPerformanceDataMissingValue\<close> are
  declared outside \<^verbatim>\<open>perfdata.go\<close>; they are three distinct constants here.
  \<open>Errorf f e\<close> is \<^verbatim>\<open>fmt.Errorf(f, ..., e)\<close> with the format \<open>f\<close> ending in \<^verbatim>\<open>%w\<close>:
  an error that wraps \<open>e\<close>. The other arguments of the format only shape the message
  text and are left out.
\<close>

datatype error =
    ErrInvalidPerformanceDataFormat
  | ErrPerformanceDataMissingLabel
  | ErrPerformanceDataMissingValue
  | Errorf string error

text \<open>\<^verbatim>\<open>errors.Is(err, target)\<close> for these errors: walk the chain of wrapped errors.\<close>

fun errors_Is :: "error \<Rightarrow> error \<Rightarrow> bool" where
  "errors_Is (Errorf f e) target = (Errorf f e = target \<or> errors_Is e target)"
| "errors_Is e target = (e = target)"

subsection \<open>Characters and the functions of package strings\<close>

definition sq :: char where
  "sq = CHR 0x27"

definition dq :: char where
  "dq = CHR 0x22"

text \<open>\<^verbatim>\<open>unicode.IsSpace\<close> on U+0000..U+00FF: tab, LF, VT, FF, CR, space, NEL, NBSP.\<close>

definition isSpace :: "char \<Rightarrow> bool" where
  "isSpace c \<longleftrightarrow> c \<in> set [CHR 0x09, CHR 0x0A, CHR 0x0B, CHR 0x0C, CHR 0x0D, CHR 0x20, CHR 0x85, CHR 0xA0]"

text \<open>
  \<^verbatim>\<open>strings.TrimFunc(s, f)\<close>: the leading and the trailing characters that satisfy
  \<open>f\<close> go; \<^verbatim>\<open>TrimSpace\<close> and \<^verbatim>\<open>Trim\<close> are instances of it.
\<close>

definition TrimLeftFunc :: "string \<Rightarrow> (char \<Rightarrow> bool) \<Rightarrow> string" where
  "TrimLeftFunc s f = dropWhile f s"

definition TrimRightFunc :: "string \<Rightarrow> (char \<Rightarrow> bool) \<Rightarrow> string" where
  "TrimRightFunc s f = rev (dropWhile f (rev s))"

definition TrimFunc :: "string \<Rightarrow> (char \<Rightarrow> bool) \<Rightarrow> string" where
  "TrimFunc s f = TrimRightFunc (TrimLeftFunc s f) f"

definition TrimSpace :: "string \<Rightarrow> string" where
  "TrimSpace s = TrimFunc s isSpace"

text \<open>\<^verbatim>\<open>strings.Trim(s, cutset)\<close>: all leading and trailing characters of the cutset go.\<close>

definition Trim :: "string \<Rightarrow> string \<Rightarrow> string" where
  "Trim s cutset = TrimFunc s (\<lambda>c. c \<in> set cutset)"

definition ContainsAny :: "string \<Rightarrow> string \<Rightarrow> bool" where
  "ContainsAny s chars \<longleftrightarrow> list_ex (\<lambda>c. c \<in> set chars) s"

text \<open>\<^verbatim>\<open>strings.Fields\<close>: the maximal runs of characters that are not white space.\<close>

function Fields :: "string \<Rightarrow> string list" where
  "Fields s =
     (case dropWhile isSpace s of
        [] \<Rightarrow> []
      | c # cs \<Rightarrow> takeWhile (\<lambda>x. \<not> isSpace x) (c # cs) # Fields (dropWhile (\<lambda>x. \<not> isSpace x) (c # cs)))"
  by pat_completeness auto
termination
proof (relation "measure length")
  show "wf (measure length)" by simp
next
  fix s :: string and c cs
  assume a: "dropWhile isSpace s = c # cs"
  have "\<not> isSpace c"
    using a hd_dropWhile [of isSpace s] by auto
  then have "length (dropWhile (\<lambda>x. \<not> isSpace x) (c # cs)) \<le> length cs"
    by (simp add: length_dropWhile_le)
  moreover have "length (c # cs) \<le> length s"
    using a length_dropWhile_le [of isSpace s] by simp
  ultimately show "(dropWhile (\<lambda>x. \<not> isSpace x) (c # cs), s) \<in> measure length"
    by simp
qed

declare Fields.simps [simp del]

text \<open>
  \<^verbatim>\<open>strings.Split(s, sep)\<close> for a separator of one character: one field more than there
  are separators, so the empty string gives one empty field.
\<close>

fun Split :: "string \<Rightarrow> char \<Rightarrow> string list" where
  "Split [] sep = [[]]"
| "Split (c # cs) sep =
     (let r = Split cs sep in if c = sep then [] # r else (c # hd r) # tl r)"

text \<open>
  \<^verbatim>\<open>strings.SplitN(s, sep, 2)\<close> for a separator of one character: the text before the
  first separator and the text after it, or the whole string when there is none.
\<close>

definition SplitN2 :: "string \<Rightarrow> char \<Rightarrow> string list" where
  "SplitN2 s sep =
     (if sep \<in> set s then [takeWhile (\<lambda>c. c \<noteq> sep) s, tl (dropWhile (\<lambda>c. c \<noteq> sep) s)] else [s])"

text \<open>
  \<^verbatim>\<open>fmt.Sprintf\<close> for formats whose only verb is \<^verbatim>\<open>%s\<close>, with string operands: each
  verb is replaced by the next operand, and a verb with no operand left prints
  \<^verbatim>\<open>%!s(MISSING)\<close>.
\<close>

fun Sprintf :: "string \<Rightarrow> string list \<Rightarrow> string" where
  "Sprintf [] args = []"
| "Sprintf [c] args = [c]"
| "Sprintf (c # d # f) args =
     (if c = CHR ''%'' \<and> d = CHR ''s''
      then (case args of [] \<Rightarrow> ''%!s(MISSING)'' @ Sprintf f [] | a # as \<Rightarrow> a @ Sprintf f as)
      else c # Sprintf (d # f) args)"

subsection \<open>Constants and regular expressions\<close>

definition perfDataMinSemicolonSeparatedFields :: nat where
  "perfDataMinSemicolonSeparatedFields = 1"

definition perfDataMaxSemicolonSeparatedFields :: nat where
  "perfDataMaxSemicolonSeparatedFields = 5"

definition perfDataLabelFieldDisallowedCharacters :: string where
  "perfDataLabelFieldDisallowedCharacters = [CHR ''='', sq]"

definition perfDataUoMFieldDisallowedCharacters :: string where
  "perfDataUoMFieldDisallowedCharacters = ''0123456789;'' @ [sq, dq]"

definition perfDataValueFieldSubexpName :: string where
  "perfDataValueFieldSubexpName = ''Value''"

definition perfDataUoMFieldSubexpName :: string where
  "perfDataUoMFieldSubexpName = ''UoM''"

text \<open>The character classes of the regular expressions.\<close>

definition isDigit :: "char \<Rightarrow> bool" where
  "isDigit c \<longleftrightarrow> c \<in> set ''0123456789''"

text \<open>\<^verbatim>\<open>[-0-9.]\<close>\<close>

definition isValueClass :: "char \<Rightarrow> bool" where
  "isValueClass c \<longleftrightarrow> c = CHR ''-'' \<or> isDigit c \<or> c = CHR ''.''"

text \<open>\<^verbatim>\<open>[0-9~@:]\<close>\<close>

definition isThresholdClass :: "char \<Rightarrow> bool" where
  "isThresholdClass c \<longleftrightarrow> isDigit c \<or> c = CHR ''~'' \<or> c = CHR ''@'' \<or> c = CHR '':''"

text \<open>\<^verbatim>\<open>[^\d;'"]\<close>\<close>

definition isUoMClass :: "char \<Rightarrow> bool" where
  "isUoMClass c \<longleftrightarrow> \<not> (isDigit c \<or> c = CHR '';'' \<or> c = sq \<or> c = dq)"

text \<open>
  \<^verbatim>\<open>regexp.MatchString\<close> searches: it reports whether some substring matches. For
  \<^verbatim>\<open>perfDataValueFieldRegex = [-0-9.]+|U\<close> that is a character of the class or a
  \<^verbatim>\<open>U\<close> somewhere in the input; for \<^verbatim>\<open>perfDataMinMaxFieldsRegex = [-0-9.]+\<close> and
  \<^verbatim>\<open>perfDataThresholdRangeSyntaxRegex = [0-9~@:]+\<close> a character of the class.
\<close>

definition MatchString_perfDataValueFieldRegex :: "string \<Rightarrow> bool" where
  "MatchString_perfDataValueFieldRegex s \<longleftrightarrow> list_ex (\<lambda>c. isValueClass c \<or> c = CHR ''U'') s"

definition MatchString_perfDataMinMaxFieldsRegex :: "string \<Rightarrow> bool" where
  "MatchString_perfDataMinMaxFieldsRegex s \<longleftrightarrow> list_ex isValueClass s"

definition MatchString_perfDataThresholdRangeSyntaxRegex :: "string \<Rightarrow> bool" where
  "MatchString_perfDataThresholdRangeSyntaxRegex s \<longleftrightarrow> list_ex isThresholdClass s"

text \<open>
  \<^verbatim>\<open>FindStringSubmatch\<close> of
  \<^verbatim>\<open>perfDataValueAndUoMFieldsRegex = (?P<Value>[-0-9.]+)(?P<UoM>[^\d;'"]*)?\<close>:
  the leftmost match. It starts at the first character of \<^verbatim>\<open>[-0-9.]\<close> in the input;
  both groups are greedy and nothing follows them, so \<^verbatim>\<open>Value\<close> is the longest run
  of the class from there and \<^verbatim>\<open>UoM\<close> the longest run of \<^verbatim>\<open>[^\d;'"]\<close> after it.
  The result is the whole match followed by the two groups, or the empty list
  (\<^verbatim>\<open>nil\<close>) when the input has no character of \<^verbatim>\<open>[-0-9.]\<close>.
\<close>

definition FindStringSubmatch_perfDataValueAndUoMFieldsRegex :: "string \<Rightarrow> string list" where
  "FindStringSubmatch_perfDataValueAndUoMFieldsRegex input =
     (let rest = dropWhile (\<lambda>c. \<not> isValueClass c) input in
      if rest = [] then []
      else
        let value = takeWhile isValueClass rest;
            uom = takeWhile isUoMClass (dropWhile isValueClass rest)
        in [value @ uom, value, uom])"

text \<open>\<^verbatim>\<open>SubexpIndex\<close> of the same expression: its named groups are Value (1) and UoM (2).\<close>

definition SubexpIndex_perfDataValueAndUoMFieldsRegex :: "string \<Rightarrow> int" where
  "SubexpIndex_perfDataValueAndUoMFieldsRegex name =
     (if name = ''Value'' then 1 else if name = ''UoM'' then 2 else - 1)"

subsection \<open>The record and its methods\<close>

text \<open>
  The struct \<^verbatim>\<open>PerformanceData\<close>. Its fields \<^verbatim>\<open>Min\<close> and \<^verbatim>\<open>Max\<close> are
  \<open>Min_pd\<close> and \<open>Max_pd\<close> here, the plain names being constants of HOL.
\<close>

record PerformanceData =
  Label :: string
  Value :: string
  UnitOfMeasurement :: string
  Warn :: string
  Crit :: string
  Min_pd :: string
  Max_pd :: string

text \<open>The zero value \<^verbatim>\<open>PerformanceData{}\<close>.\<close>

definition PerformanceData_zero :: PerformanceData where
  "PerformanceData_zero =
     \<lparr>Label = [], Value = [], UnitOfMeasurement = [], Warn = [], Crit = [], Min_pd = [], Max_pd = []\<rparr>"

definition PerformanceData_Validate :: "PerformanceData \<Rightarrow> error option" where
  "PerformanceData_Validate pd =
     (if Label pd = [] then Some ErrPerformanceDataMissingLabel
      else if Value pd = [] then Some ErrPerformanceDataMissingValue
      else None)"

definition PerformanceData_String :: "PerformanceData \<Rightarrow> string" where
  "PerformanceData_String pd =
     Sprintf ('' '' @ [sq] @ ''%s'' @ [sq] @ ''=%s%s;%s;%s;%s;%s'')
       [Label pd, Value pd, UnitOfMeasurement pd, Warn pd, Crit pd, Min_pd pd, Max_pd pd]"

subsection \<open>Field validators\<close>

definition validatePerfDataLabelField :: "string \<Rightarrow> error option" where
  "validatePerfDataLabelField input0 =
     (let input = TrimSpace input0 in
      if input \<noteq> [] \<and> \<not> ContainsAny input perfDataLabelFieldDisallowedCharacters then None
      else
        let invalidCharErr =
              Errorf ''input string %q contains disallowed character from set %q: %w''
                ErrInvalidPerformanceDataFormat
        in Some (Errorf ''field Label fails validation: %w'' invalidCharErr))"

definition validatePerfDataValueField :: "string \<Rightarrow> error option" where
  "validatePerfDataValueField input0 =
     (let input = TrimSpace input0 in
      if MatchString_perfDataValueFieldRegex input then None
      else Some (Errorf ''field Value fails validation: %w'' ErrInvalidPerformanceDataFormat))"

definition validatePerfDataUoMField :: "string \<Rightarrow> error option" where
  "validatePerfDataUoMField input0 =
     (let input = TrimSpace input0 in
      if input = [] then None
      else if \<not> ContainsAny input perfDataUoMFieldDisallowedCharacters then None
      else
        let invalidCharErr =
              Errorf ''input string %q contains disallowed character from set %q: %w''
                ErrInvalidPerformanceDataFormat
        in Some (Errorf ''field UnitOfMeasurement fails validation: %w'' invalidCharErr))"

definition validatePerfDataWarnField :: "string \<Rightarrow> error option" where
  "validatePerfDataWarnField input0 =
     (let input = TrimSpace input0 in
      if input = [] then None
      else if MatchString_perfDataThresholdRangeSyntaxRegex input then None
      else Some (Errorf ''field Warn fails validation: %w'' ErrInvalidPerformanceDataFormat))"

definition validatePerfDataCritField :: "string \<Rightarrow> error option" where
  "validatePerfDataCritField input0 =
     (let input = TrimSpace input0 in
      if input = [] then None
      else if MatchString_perfDataThresholdRangeSyntaxRegex input then None
      else Some (Errorf ''field Crit fails validation: %w'' ErrInvalidPerformanceDataFormat))"

definition validatePerfDataMinField :: "string \<Rightarrow> error option" where
  "validatePerfDataMinField input0 =
     (let input = TrimSpace input0 in
      if input = [] then None
      else if MatchString_perfDataMinMaxFieldsRegex input then None
      else Some (Errorf ''field Min fails validation: %w'' ErrInvalidPerformanceDataFormat))"

definition validatePerfDataMaxField :: "string \<Rightarrow> error option" where
  "validatePerfDataMaxField input0 =
     (let input = TrimSpace input0 in
      if input = [] then None
      else if MatchString_perfDataMinMaxFieldsRegex input then None
      else Some (Errorf ''field Max fails validation: %w'' ErrInvalidPerformanceDataFormat))"

subsection \<open>Field parsers\<close>

definition parsePerfDataWarnField :: "string \<Rightarrow> error + string" where
  "parsePerfDataWarnField input0 =
     (let input = TrimSpace input0 in
      case validatePerfDataWarnField input of Some err \<Rightarrow> Inl err | None \<Rightarrow> Inr input)"

definition parsePerfDataCritField :: "string \<Rightarrow> error + string" where
  "parsePerfDataCritField input0 =
     (let input = TrimSpace input0 in
      case validatePerfDataCritField input of Some err \<Rightarrow> Inl err | None \<Rightarrow> Inr input)"

definition parsePerfDataMinField :: "string \<Rightarrow> error + string" where
  "parsePerfDataMinField input0 =
     (let input = TrimSpace input0 in
      case validatePerfDataMinField input of Some err \<Rightarrow> Inl err | None \<Rightarrow> Inr input)"

definition parsePerfDataMaxField :: "string \<Rightarrow> error + string" where
  "parsePerfDataMaxField input0 =
     (let input = TrimSpace input0 in
      case validatePerfDataMaxField input of Some err \<Rightarrow> Inl err | None \<Rightarrow> Inr input)"

subsection \<open>Tokenizer and splitter\<close>

definition extractLabelAndRawValue :: "string \<Rightarrow> error + (string \<times> string)" where
  "extractLabelAndRawValue input =
     (if input = [] then
        Inl (Errorf ''func extractLabelAndRawValue: empty input provided: %w''
               ErrInvalidPerformanceDataFormat)
      else
        let labelAndRawValue = SplitN2 input CHR ''='' in
        if length labelAndRawValue \<noteq> 2 then
          Inl (Errorf ''failed to obtain metric label and raw value from field %q: %w''
                 ErrInvalidPerformanceDataFormat)
        else
          let label = TrimSpace (Trim (labelAndRawValue ! 0) [sq]) in
          (case validatePerfDataLabelField label of
            Some err \<Rightarrow>
              Inl (Errorf ''failed to extract Label field from input string %q: %w'' err)
          | None \<Rightarrow>
              let rawValue = TrimSpace (labelAndRawValue ! 1) in
              if rawValue = [] then
                Inl (Errorf ''metric value is not present in input string %q: %w''
                       ErrInvalidPerformanceDataFormat)
              else Inr (label, rawValue)))"

definition extractValueAndUoM :: "string \<Rightarrow> error + (string \<times> string)" where
  "extractValueAndUoM input =
     (if input = [] then
        Inl (Errorf ''func extractValueAndUoM: empty input provided: %w''
               ErrInvalidPerformanceDataFormat)
      else if input = ''U'' then Inr (input, [])
      else
        let matches = FindStringSubmatch_perfDataValueAndUoMFieldsRegex input in
        if length matches = 0 then
          Inl (Errorf ''failed to extract Value and UoM fields from input string %q: %w''
                 ErrInvalidPerformanceDataFormat)
        else
          let valIndex = SubexpIndex_perfDataValueAndUoMFieldsRegex perfDataValueFieldSubexpName in
          if valIndex < 0 then
            Inl (Errorf ''failed to extract Value field from input string %q: %w''
                   ErrInvalidPerformanceDataFormat)
          else
            let value = matches ! nat valIndex in
            (case validatePerfDataValueField value of
              Some err \<Rightarrow>
                Inl (Errorf ''failed to extract Value field from input string %q: %w'' err)
            | None \<Rightarrow>
                let uomIndex = SubexpIndex_perfDataValueAndUoMFieldsRegex perfDataUoMFieldSubexpName in
                if uomIndex \<ge> 0 then
                  let uom = matches ! nat uomIndex in
                  (case validatePerfDataUoMField uom of
                    Some err \<Rightarrow>
                      Inl (Errorf ''failed to extract UnitOfMeasurement field from input string %q: %w'' err)
                  | None \<Rightarrow> Inr (value, uom))
                else Inr (value, [])))"

definition extractRawWarnCritMinMaxRawFieldVals ::
  "string list \<Rightarrow> string \<times> string \<times> string \<times> string" where
  "extractRawWarnCritMinMaxRawFieldVals perfdataFields =
     (let warn = (if length perfdataFields \<ge> 2 then perfdataFields ! 1 else []);
          crit = (if length perfdataFields \<ge> 3 then perfdataFields ! 2 else []);
          min_v = (if length perfdataFields \<ge> 4 then perfdataFields ! 3 else []);
          max_v = (if length perfdataFields \<ge> 5 then perfdataFields ! 4 else [])
      in (warn, crit, min_v, max_v))"

subsection \<open>Assembling one metric, and the batch\<close>

definition parsePerfData :: "string \<Rightarrow> error + PerformanceData" where
  "parsePerfData perfdataString =
     (let perfdataFields = Split perfdataString CHR '';'';
          numFields = length perfdataFields
      in
      if numFields < perfDataMinSemicolonSeparatedFields then
        Inl (Errorf ''input appears to be empty; after processing %d fields found; expected minimum of %d: %w''
               ErrInvalidPerformanceDataFormat)
      else if numFields > perfDataMaxSemicolonSeparatedFields then
        Inl (Errorf ''input contains %d semicolon separated fields; expected no more than %d: %w''
               ErrInvalidPerformanceDataFormat)
      else
        (case extractLabelAndRawValue (perfdataFields ! 0) of
          Inl err \<Rightarrow> Inl (Errorf ''failed to extract label and raw value: %w'' err)
        | Inr (label, rawValue) \<Rightarrow>
        (case extractValueAndUoM rawValue of
          Inl err \<Rightarrow> Inl (Errorf ''failed to extract value and uom: %w'' err)
        | Inr (value, uom) \<Rightarrow>
        (case extractRawWarnCritMinMaxRawFieldVals perfdataFields of
          (rawWarn, rawCrit, rawMin, rawMax) \<Rightarrow>
        (case parsePerfDataWarnField rawWarn of
          Inl err \<Rightarrow> Inl (Errorf ''failed to parse warn field: %w'' err)
        | Inr warn \<Rightarrow>
        (case parsePerfDataCritField rawCrit of
          Inl err \<Rightarrow> Inl (Errorf ''failed to parse crit field: %w'' err)
        | Inr crit \<Rightarrow>
        (case parsePerfDataMinField rawMin of
          Inl err \<Rightarrow> Inl (Errorf ''failed to parse min field: %w'' err)
        | Inr min_v \<Rightarrow>
        (case parsePerfDataMaxField rawMax of
          Inl err \<Rightarrow> Inl (Errorf ''failed to parse max field: %w'' err)
        | Inr max_v \<Rightarrow>
            Inr \<lparr>Label = label, Value = value, UnitOfMeasurement = uom,
                 Warn = warn, Crit = crit, Min_pd = min_v, Max_pd = max_v\<rparr>))))))))"

text \<open>
  The loop of \<^verbatim>\<open>ParsePerfData\<close> over the metric strings: \<open>results\<close> is the slice
  built so far, and the first error ends the loop and is returned alone.
\<close>

fun ParsePerfData_loop :: "string list \<Rightarrow> PerformanceData list \<Rightarrow> error + PerformanceData list" where
  "ParsePerfData_loop [] results = Inr results"
| "ParsePerfData_loop (perfdataString # rest) results =
     (case parsePerfData perfdataString of
        Inl err \<Rightarrow> Inl err
      | Inr perfdata \<Rightarrow> ParsePerfData_loop rest (results @ [perfdata]))"

definition ParsePerfData :: "string \<Rightarrow> error + PerformanceData list" where
  "ParsePerfData rawPerfdata =
     (if TrimSpace rawPerfdata = [] then
        Inl (Errorf ''missing input performance data string: %w'' ErrInvalidPerformanceDataFormat)
      else
        let perfdataStrings = Fields (Trim rawPerfdata [dq])
        in ParsePerfData_loop perfdataStrings [])"

subsection \<open>The documented format of one metric\<close>

text \<open>
  The format that the comments of \<^verbatim>\<open>ParsePerfData\<close> and of the fields of
  \<^verbatim>\<open>PerformanceData\<close> describe, \<^verbatim>\<open>'label'=value[UOM];[warn];[crit];[min];[max]\<close>,
  with all five fields there (each of the last four may be empty): the label, between
  single quotes or bare, is not empty and has no single quote and no equals sign; the
  value is \<^verbatim>\<open>U\<close>, or a number of the class \<^verbatim>\<open>[-0-9.]\<close> followed by a unit without
  digits, semicolons and quotes; Warn and Crit are in the range format, written with
  \<^verbatim>\<open>[0-9~@:]\<close> and the characters of numbers; Min and Max are of the class
  \<^verbatim>\<open>[-0-9.]\<close>. It is the hypothesis of the round-trip property, not part of the code.
\<close>

definition well_formed_label :: "string \<Rightarrow> bool" where
  "well_formed_label l \<longleftrightarrow>
     (let text = (if 2 \<le> length l \<and> hd l = sq \<and> last l = sq then butlast (tl l) else l)
      in text \<noteq> [] \<and> sq \<notin> set text \<and> CHR ''='' \<notin> set text)"

definition well_formed_value_uom :: "string \<Rightarrow> bool" where
  "well_formed_value_uom vu \<longleftrightarrow>
     vu = ''U''
     \<or> (takeWhile isValueClass vu \<noteq> [] \<and> list_all isUoMClass (dropWhile isValueClass vu))"

definition well_formed_range :: "string \<Rightarrow> bool" where
  "well_formed_range r \<longleftrightarrow> list_all (\<lambda>c. isThresholdClass c \<or> isValueClass c) r"

definition well_formed_metric :: "string \<Rightarrow> bool" where
  "well_formed_metric m \<longleftrightarrow>
     (let fields = Split m CHR '';'' in
      length fields = 5
      \<and> (let labelAndValue = SplitN2 (fields ! 0) CHR ''='' in
           length labelAndValue = 2
           \<and> well_formed_label (labelAndValue ! 0)
           \<and> well_formed_value_uom (labelAndValue ! 1))
      \<and> well_formed_range (fields ! 1)
      \<and> well_formed_range (fields ! 2)
      \<and> list_all isValueClass (fields ! 3)
      \<and> list_all isValueClass (fields ! 4))"

section \<open>Properties\<close>

subsection \<open>Characters and trimming\<close>

lemma isValueClass_not_isSpace: "isValueClass c \<Longrightarrow> \<not> isSpace c"
  by (auto simp: isValueClass_def isDigit_def isSpace_def)

lemma isThresholdClass_not_isSpace: "isThresholdClass c \<Longrightarrow> \<not> isSpace c"
  by (auto simp: isThresholdClass_def isDigit_def isSpace_def)

lemma TrimFunc_Nil [simp]: "TrimFunc [] f = []"
  by (simp add: TrimFunc_def TrimLeftFunc_def TrimRightFunc_def)

lemma set_TrimFunc_subset: "set (TrimFunc s f) \<subseteq> set s"
proof -
  have "set (rev (dropWhile f (rev (dropWhile f s)))) \<subseteq> set (dropWhile f s)"
    using set_dropWhileD [of _ f "rev (dropWhile f s)"] by auto
  also have "\<dots> \<subseteq> set s"
    using set_dropWhileD [of _ f s] by auto
  finally show ?thesis
    by (simp add: TrimFunc_def TrimLeftFunc_def TrimRightFunc_def)
qed

lemma dropWhile_keeps: "x \<in> set xs \<Longrightarrow> \<not> f x \<Longrightarrow> x \<in> set (dropWhile f xs)"
  by (induction xs) auto

lemma TrimFunc_keeps: "x \<in> set s \<Longrightarrow> \<not> f x \<Longrightarrow> x \<in> set (TrimFunc s f)"
  by (simp add: TrimFunc_def TrimLeftFunc_def TrimRightFunc_def dropWhile_keeps)

lemma TrimSpace_Nil [simp]: "TrimSpace [] = []"
  by (simp add: TrimSpace_def)

lemma list_ex_TrimSpace:
  assumes "\<And>c. P c \<Longrightarrow> \<not> isSpace c"
  shows "list_ex P (TrimSpace s) \<longleftrightarrow> list_ex P s"
  using assms set_TrimFunc_subset [of s isSpace] TrimFunc_keeps [of _ s isSpace]
  unfolding TrimSpace_def list_ex_iff by blast


lemma TrimRightFunc_fixed: "s = [] \<or> \<not> f (last s) \<Longrightarrow> TrimRightFunc s f = s"
proof (cases "s = []")
  case True
  then show ?thesis by (simp add: TrimRightFunc_def)
next
  case False
  assume "s = [] \<or> \<not> f (last s)"
  with False have "\<not> f (hd (rev s))" by (simp add: hd_rev)
  then have "dropWhile f (rev s) = rev s"
    by (simp add: dropWhile_eq_self_iff)
  then show ?thesis by (simp add: TrimRightFunc_def)
qed

lemma TrimLeftFunc_fixed: "s = [] \<or> \<not> f (hd s) \<Longrightarrow> TrimLeftFunc s f = s"
  by (auto simp: TrimLeftFunc_def dropWhile_eq_self_iff)

lemma TrimFunc_fixed: "s = [] \<or> (\<not> f (hd s) \<and> \<not> f (last s)) \<Longrightarrow> TrimFunc s f = s"
  by (auto simp: TrimFunc_def TrimLeftFunc_fixed TrimRightFunc_fixed)

lemma TrimFunc_all_not: "\<forall>x\<in>set s. \<not> f x \<Longrightarrow> TrimFunc s f = s"
  by (cases "s = []") (auto intro!: TrimFunc_fixed)

lemma TrimFunc_ends:
  "TrimFunc s f = [] \<or> (\<not> f (hd (TrimFunc s f)) \<and> \<not> f (last (TrimFunc s f)))"
proof (cases "dropWhile f s = []")
  case True
  then have "TrimFunc s f = []"
    unfolding TrimFunc_def TrimLeftFunc_def TrimRightFunc_def
    by (simp del: dropWhile_eq_Nil_conv)
  then show ?thesis by simp
next
  case False
  define y where "y = dropWhile f s"
  define z where "z = dropWhile f (rev y)"
  have y: "y \<noteq> []" "\<not> f (hd y)"
    using False hd_dropWhile [of f s] by (simp_all add: y_def)
  have in_rev: "hd y \<in> set (rev y)" using y(1) by simp
  then have "last z = last (rev y)"
    unfolding z_def using y(2) by (rule dropWhile_last)
  then have lz: "last z = hd y" using y(1) by (simp add: last_rev)
  have "hd y \<in> set z"
    unfolding z_def using in_rev y(2) by (rule dropWhile_keeps)
  then have z: "z \<noteq> []" by auto
  then have "\<not> f (hd z)"
    unfolding z_def by (rule hd_dropWhile)
  moreover have "TrimFunc s f = rev z"
    by (simp add: TrimFunc_def TrimLeftFunc_def TrimRightFunc_def y_def z_def)
  ultimately show ?thesis
    using z lz y(2) by (simp add: hd_rev last_rev)
qed

lemma TrimFunc_idem [simp]: "TrimFunc (TrimFunc s f) f = TrimFunc s f"
  using TrimFunc_ends [of s f] by (intro TrimFunc_fixed) auto

lemma TrimSpace_idem [simp]: "TrimSpace (TrimSpace s) = TrimSpace s"
  by (simp add: TrimSpace_def)

lemma TrimSpace_all_not: "\<forall>x\<in>set s. \<not> isSpace x \<Longrightarrow> TrimSpace s = s"
  by (simp add: TrimSpace_def TrimFunc_all_not)

lemma set_TrimSpace_subset: "set (TrimSpace s) \<subseteq> set s"
  by (simp add: TrimSpace_def set_TrimFunc_subset)

lemma Trim_quote_layers:
  assumes "sq \<notin> set core"
  shows "Trim (replicate n sq @ core @ replicate k sq) [sq] = core"
proof (cases "core = []")
  case True
  then show ?thesis
    by (simp add: Trim_def TrimFunc_def TrimLeftFunc_def TrimRightFunc_def dropWhile_append3
        flip: replicate_add)
next
  case False
  then have h: "hd core \<noteq> sq" "last core \<noteq> sq"
    using assms by (metis hd_in_set, metis last_in_set)
  have "dropWhile (\<lambda>c. c \<in> set [sq]) (replicate n sq @ core @ replicate k sq) = core @ replicate k sq"
    using False h(1) by (cases core) (simp_all add: dropWhile_append)
  moreover have "dropWhile (\<lambda>c. c \<in> set [sq]) (rev (core @ replicate k sq)) = rev core"
    using False h(2) by (cases core rule: rev_cases) (simp_all add: dropWhile_append)
  ultimately show ?thesis
    by (simp add: Trim_def TrimFunc_def TrimLeftFunc_def TrimRightFunc_def)
qed

subsection \<open>Splitting\<close>

lemma Split_not_Nil [simp]: "Split s sep \<noteq> []"
  by (induction s) (auto simp: Let_def)

lemma length_Split_pos [simp]: "0 < length (Split s sep)"
  by simp

lemma hd_Split: "hd (Split s sep) = takeWhile (\<lambda>c. c \<noteq> sep) s"
  by (induction s) (auto simp: Let_def)

lemma Split_nth_0: "Split s sep ! 0 = takeWhile (\<lambda>c. c \<noteq> sep) s"
  using hd_Split [of s sep] by (simp add: hd_conv_nth)

lemma Split_no_sep: "sep \<notin> set s \<Longrightarrow> Split s sep = [s]"
  by (induction s) (auto simp: Let_def)

lemma Split_append_sep: "sep \<notin> set xs \<Longrightarrow> Split (xs @ sep # ys) sep = xs # Split ys sep"
  by (induction xs) (auto simp: Let_def)

lemma set_Split: "f \<in> set (Split s sep) \<Longrightarrow> set f \<subseteq> set s \<and> sep \<notin> set f"
proof (induction s arbitrary: f)
  case Nil
  then show ?case by simp
next
  case (Cons c cs)
  have ne: "Split cs sep \<noteq> []" by simp
  show ?case
  proof (cases "c = sep")
    case True
    with Cons show ?thesis by (auto simp: Let_def)
  next
    case False
    with Cons.prems have "f = c # hd (Split cs sep) \<or> f \<in> set (tl (Split cs sep))"
      by (auto simp: Let_def)
    then show ?thesis
    proof
      assume f: "f = c # hd (Split cs sep)"
      have "hd (Split cs sep) \<in> set (Split cs sep)" using ne by simp
      from Cons.IH [OF this] f False show ?thesis by auto
    next
      assume "f \<in> set (tl (Split cs sep))"
      then have "f \<in> set (Split cs sep)" using ne by (meson list.set_sel(2))
      from Cons.IH [OF this] show ?thesis by auto
    qed
  qed
qed


lemma SplitN2_first_sep: "sep \<notin> set l \<Longrightarrow> SplitN2 (l @ sep # r) sep = [l, r]"
  by (simp add: SplitN2_def takeWhile_append dropWhile_append)

subsection \<open>Every error wraps the root sentinel\<close>

lemma errors_Is_Errorf_root [simp]:
  "errors_Is (Errorf f e) ErrInvalidPerformanceDataFormat = errors_Is e ErrInvalidPerformanceDataFormat"
  by simp

lemma validators_wrap_root:
  "validatePerfDataLabelField s = Some e \<Longrightarrow> errors_Is e ErrInvalidPerformanceDataFormat"
  "validatePerfDataValueField s = Some e \<Longrightarrow> errors_Is e ErrInvalidPerformanceDataFormat"
  "validatePerfDataUoMField s = Some e \<Longrightarrow> errors_Is e ErrInvalidPerformanceDataFormat"
  "validatePerfDataWarnField s = Some e \<Longrightarrow> errors_Is e ErrInvalidPerformanceDataFormat"
  "validatePerfDataCritField s = Some e \<Longrightarrow> errors_Is e ErrInvalidPerformanceDataFormat"
  "validatePerfDataMinField s = Some e \<Longrightarrow> errors_Is e ErrInvalidPerformanceDataFormat"
  "validatePerfDataMaxField s = Some e \<Longrightarrow> errors_Is e ErrInvalidPerformanceDataFormat"
  by (auto simp: validatePerfDataLabelField_def validatePerfDataValueField_def
      validatePerfDataUoMField_def validatePerfDataWarnField_def validatePerfDataCritField_def
      validatePerfDataMinField_def validatePerfDataMaxField_def Let_def split: if_splits)


lemma extractLabelAndRawValue_wraps_root:
  "extractLabelAndRawValue s = Inl e \<Longrightarrow> errors_Is e ErrInvalidPerformanceDataFormat"
  by (auto simp: extractLabelAndRawValue_def Let_def validators_wrap_root
      split: if_splits option.splits)







lemma ParsePerfData_loop_Inr_iff:
  "ParsePerfData_loop ts acc = Inr rs \<longleftrightarrow>
     (\<exists>ps. rs = acc @ ps \<and> list_all2 (\<lambda>t p. parsePerfData t = Inr p) ts ps)"
proof (induction ts arbitrary: acc)
  case Nil
  then show ?case by auto
next
  case (Cons t ts)
  show ?case
  proof (cases "parsePerfData t")
    case (Inl e)
    then show ?thesis by (simp add: list_all2_Cons1)
  next
    case (Inr p)
    then show ?thesis
      by (auto simp: Cons.IH list_all2_Cons1)
  qed
qed

lemma ParsePerfData_Inr_iff:
  "ParsePerfData s = Inr rs \<longleftrightarrow>
     TrimSpace s \<noteq> [] \<and> list_all2 (\<lambda>t p. parsePerfData t = Inr p) (Fields (Trim s [dq])) rs"
  by (simp add: ParsePerfData_def Let_def ParsePerfData_loop_Inr_iff)

subsection \<open>Validators, tokenizer and splitter\<close>

lemma validatePerfDataLabelField_None_iff:
  "validatePerfDataLabelField s = None \<longleftrightarrow>
     TrimSpace s \<noteq> [] \<and> CHR ''='' \<notin> set (TrimSpace s) \<and> sq \<notin> set (TrimSpace s)"
  by (auto simp: validatePerfDataLabelField_def Let_def ContainsAny_def list_ex_iff
      perfDataLabelFieldDisallowedCharacters_def)

lemma extractLabelAndRawValue_Inr_nonempty:
  assumes "extractLabelAndRawValue s = Inr (l, r)"
  shows "l \<noteq> [] \<and> r \<noteq> []"
  using assms
  by (auto simp: extractLabelAndRawValue_def Let_def validatePerfDataLabelField_None_iff
      split: if_splits option.splits)

lemma FindStringSubmatch_cases:
  "(FindStringSubmatch_perfDataValueAndUoMFieldsRegex input = [] \<and> (\<forall>c\<in>set input. \<not> isValueClass c))
   \<or> (\<exists>v u. FindStringSubmatch_perfDataValueAndUoMFieldsRegex input = [v @ u, v, u]
        \<and> v = takeWhile isValueClass (dropWhile (\<lambda>c. \<not> isValueClass c) input)
        \<and> u = takeWhile isUoMClass (dropWhile isValueClass (dropWhile (\<lambda>c. \<not> isValueClass c) input))
        \<and> v \<noteq> [] \<and> (\<exists>c\<in>set input. isValueClass c))"
proof (cases "dropWhile (\<lambda>c. \<not> isValueClass c) input = []")
  case True
  then show ?thesis
    by (auto simp: FindStringSubmatch_perfDataValueAndUoMFieldsRegex_def)
next
  case False
  then have "isValueClass (hd (dropWhile (\<lambda>c. \<not> isValueClass c) input))"
    using hd_dropWhile [of "\<lambda>c. \<not> isValueClass c" input] by simp
  with False have "takeWhile isValueClass (dropWhile (\<lambda>c. \<not> isValueClass c) input) \<noteq> []"
    by (simp add: takeWhile_eq_Nil_iff)
  moreover have "\<exists>c\<in>set input. isValueClass c"
    using False by auto
  ultimately show ?thesis
    using False by (simp add: FindStringSubmatch_perfDataValueAndUoMFieldsRegex_def Let_def)
qed

lemma SubexpIndex_simps [simp]:
  "SubexpIndex_perfDataValueAndUoMFieldsRegex perfDataValueFieldSubexpName = 1"
  "SubexpIndex_perfDataValueAndUoMFieldsRegex perfDataUoMFieldSubexpName = 2"
  by (simp_all add: SubexpIndex_perfDataValueAndUoMFieldsRegex_def
      perfDataValueFieldSubexpName_def perfDataUoMFieldSubexpName_def)

lemma extractValueAndUoM_Inr_nonempty:
  assumes "extractValueAndUoM s = Inr (v, u)"
  shows "v \<noteq> []"
proof (cases "s = ''U''")
  case True
  with assms show ?thesis by (auto simp: extractValueAndUoM_def)
next
  case False
  from FindStringSubmatch_cases [of s] assms False show ?thesis
    by (auto simp: extractValueAndUoM_def Let_def split: if_splits option.splits)
qed

lemma parsePerfData_Inr_nonempty:
  assumes "parsePerfData t = Inr pd"
  shows "Label pd \<noteq> [] \<and> Value pd \<noteq> []"
  using assms unfolding parsePerfData_def Let_def
  by (auto split: if_splits sum.splits prod.splits
      dest: extractLabelAndRawValue_Inr_nonempty extractValueAndUoM_Inr_nonempty)








lemma UoM_disallowed_iff: "c \<in> set perfDataUoMFieldDisallowedCharacters \<longleftrightarrow> \<not> isUoMClass c"
  by (auto simp: perfDataUoMFieldDisallowedCharacters_def isUoMClass_def isDigit_def)

lemma validatePerfDataUoMField_None_iff:
  "validatePerfDataUoMField u = None \<longleftrightarrow> (\<forall>c\<in>set (TrimSpace u). isUoMClass c)"
  by (auto simp: validatePerfDataUoMField_def Let_def ContainsAny_def list_ex_iff UoM_disallowed_iff)

lemma value_or_U_not_isSpace: "isValueClass c \<or> c = CHR ''U'' \<Longrightarrow> \<not> isSpace c"
  by (auto simp: isValueClass_def isDigit_def isSpace_def)

lemma validatePerfDataValueField_None_iff:
  "validatePerfDataValueField v = None \<longleftrightarrow> (\<exists>c\<in>set v. isValueClass c \<or> c = CHR ''U'')"
  using list_ex_TrimSpace [of "\<lambda>c. isValueClass c \<or> c = CHR ''U''" v, OF value_or_U_not_isSpace]
  by (simp add: validatePerfDataValueField_def Let_def MatchString_perfDataValueFieldRegex_def
        list_ex_iff)

lemma extractValueAndUoM_leftmost:
  assumes "input \<noteq> []" and "input \<noteq> ''U''"
  shows "extractValueAndUoM input =
     (if \<exists>c\<in>set input. isValueClass c
      then Inr (takeWhile isValueClass (dropWhile (\<lambda>c. \<not> isValueClass c) input),
                takeWhile isUoMClass
                  (dropWhile isValueClass (dropWhile (\<lambda>c. \<not> isValueClass c) input)))
      else Inl (Errorf ''failed to extract Value and UoM fields from input string %q: %w''
                  ErrInvalidPerformanceDataFormat))"
proof -
  define v where "v = takeWhile isValueClass (dropWhile (\<lambda>c. \<not> isValueClass c) input)"
  define u where "u = takeWhile isUoMClass
    (dropWhile isValueClass (dropWhile (\<lambda>c. \<not> isValueClass c) input))"
  from FindStringSubmatch_cases [of input]
  show ?thesis
  proof
    assume "FindStringSubmatch_perfDataValueAndUoMFieldsRegex input = []
      \<and> (\<forall>c\<in>set input. \<not> isValueClass c)"
    then show ?thesis
      using assms by (simp add: extractValueAndUoM_def)
  next
    assume "\<exists>v u. FindStringSubmatch_perfDataValueAndUoMFieldsRegex input = [v @ u, v, u]
        \<and> v = takeWhile isValueClass (dropWhile (\<lambda>c. \<not> isValueClass c) input)
        \<and> u = takeWhile isUoMClass (dropWhile isValueClass (dropWhile (\<lambda>c. \<not> isValueClass c) input))
        \<and> v \<noteq> [] \<and> (\<exists>c\<in>set input. isValueClass c)"
    then have m: "FindStringSubmatch_perfDataValueAndUoMFieldsRegex input = [v @ u, v, u]"
      and ne: "v \<noteq> []" and ex: "\<exists>c\<in>set input. isValueClass c"
      unfolding v_def u_def by blast+
    have "hd v \<in> set v" using ne by simp
    then have "isValueClass (hd v)"
      unfolding v_def by (rule set_takeWhileD [THEN conjunct2])
    then have vv: "validatePerfDataValueField v = None"
      using ne validatePerfDataValueField_None_iff [of v] hd_in_set [of v] by blast
    have "\<forall>c\<in>set u. isUoMClass c"
      unfolding u_def by (auto dest: set_takeWhileD)
    then have vu: "validatePerfDataUoMField u = None"
      using set_TrimSpace_subset [of u] validatePerfDataUoMField_None_iff [of u] by blast
    have "extractValueAndUoM input = Inr (v, u)"
      using assms m vv vu by (simp add: extractValueAndUoM_def Let_def)
    then show ?thesis
      using ex unfolding v_def u_def by simp
  qed
qed

lemma uom_capture_has_no_digit:
  assumes "FindStringSubmatch_perfDataValueAndUoMFieldsRegex input = [w, v, u]"
  shows "\<forall>c\<in>set u. \<not> isDigit c"
proof -
  have "u = takeWhile isUoMClass
      (dropWhile isValueClass (dropWhile (\<lambda>c. \<not> isValueClass c) input))"
    using assms FindStringSubmatch_cases [of input] by auto
  then have "\<forall>c\<in>set u. isUoMClass c"
    by (auto dest: set_takeWhileD)
  then show ?thesis
    by (simp add: isUoMClass_def)
qed

subsection \<open>Batches of one metric string\<close>

lemma TrimFunc_decomp:
  "\<exists>a b. s = a @ TrimFunc s f @ b \<and> (\<forall>x\<in>set a. f x) \<and> (\<forall>x\<in>set b. f x)"
proof -
  define y where "y = dropWhile f s"
  have s: "s = takeWhile f s @ y" by (simp add: y_def)
  have "rev (takeWhile f (rev y) @ dropWhile f (rev y)) = rev (rev y)"
    by (simp only: takeWhile_dropWhile_id)
  then have y: "rev (dropWhile f (rev y)) @ rev (takeWhile f (rev y)) = y"
    by (simp only: rev_append rev_rev_ident)
  have t: "TrimFunc s f = rev (dropWhile f (rev y))"
    by (simp add: TrimFunc_def TrimLeftFunc_def TrimRightFunc_def y_def)
  have "s = takeWhile f s @ TrimFunc s f @ rev (takeWhile f (rev y))"
    by (simp only: t y) (rule s)
  moreover have "\<forall>x\<in>set (takeWhile f s). f x" by (auto dest: set_takeWhileD)
  moreover have "\<forall>x\<in>set (rev (takeWhile f (rev y))). f x" by (auto dest: set_takeWhileD)
  ultimately show ?thesis by blast
qed

lemma Fields_Nil_D: "Fields z = [] \<Longrightarrow> \<forall>c\<in>set z. isSpace c"
  by (subst (asm) Fields.simps) (auto split: list.splits)

lemma Fields_single_decomp:
  assumes "Fields x = [t]"
  shows "\<exists>a b. x = a @ t @ b \<and> (\<forall>c\<in>set a. isSpace c) \<and> (\<forall>c\<in>set b. isSpace c)"
proof -
  define y where "y = dropWhile isSpace x"
  have x: "x = takeWhile isSpace x @ y" by (simp add: y_def)
  have unf: "Fields x = (case y of [] \<Rightarrow> []
      | c # cs \<Rightarrow> takeWhile (\<lambda>x. \<not> isSpace x) (c # cs) # Fields (dropWhile (\<lambda>x. \<not> isSpace x) (c # cs)))"
    unfolding y_def by (rule Fields.simps)
  from assms unf have t: "t = takeWhile (\<lambda>c. \<not> isSpace c) y"
    and r: "Fields (dropWhile (\<lambda>c. \<not> isSpace c) y) = []"
    by (cases y; simp)+
  have "y = t @ dropWhile (\<lambda>c. \<not> isSpace c) y" by (simp add: t)
  with x have "x = takeWhile isSpace x @ t @ dropWhile (\<lambda>c. \<not> isSpace c) y" by simp
  moreover have "\<forall>c\<in>set (takeWhile isSpace x). isSpace c" by (auto dest: set_takeWhileD)
  moreover have "\<forall>c\<in>set (dropWhile (\<lambda>c. \<not> isSpace c) y). isSpace c"
    using r by (rule Fields_Nil_D)
  ultimately show ?thesis by blast
qed

lemma Fields_no_space:
  "t \<in> set (Fields x) \<Longrightarrow> t \<noteq> [] \<and> (\<forall>c\<in>set t. \<not> isSpace c)"
proof (induction x arbitrary: t rule: Fields.induct)
  case (1 s)
  show ?case
  proof (cases "dropWhile isSpace s")
    case Nil
    have "Fields s = []"
      by (subst Fields.simps) (simp only: Nil list.case)
    with "1.prems" show ?thesis by simp
  next
    case (Cons c cs)
    have "c = hd (dropWhile isSpace s)" "dropWhile isSpace s \<noteq> []"
      by (simp_all only: Cons list.sel list.distinct not_False_eq_True)
    then have nc: "\<not> isSpace c"
      using hd_dropWhile [of isSpace s] by blast
    have "Fields s = takeWhile (\<lambda>x. \<not> isSpace x) (c # cs)
        # Fields (dropWhile (\<lambda>x. \<not> isSpace x) (c # cs))"
      by (subst Fields.simps) (simp only: Cons list.case)
    with "1.prems" have "t = takeWhile (\<lambda>x. \<not> isSpace x) (c # cs)
        \<or> t \<in> set (Fields (dropWhile (\<lambda>x. \<not> isSpace x) (c # cs)))"
      by simp
    then show ?thesis
    proof
      assume "t = takeWhile (\<lambda>x. \<not> isSpace x) (c # cs)"
      then show ?thesis using nc by (auto dest: set_takeWhileD)
    next
      assume "t \<in> set (Fields (dropWhile (\<lambda>x. \<not> isSpace x) (c # cs)))"
      then show ?thesis by (rule "1.IH" [OF Cons])
    qed
  qed
qed

lemma Fields_leading_space_token:
  assumes "t \<noteq> []" and "\<forall>c\<in>set t. \<not> isSpace c" and "isSpace w"
  shows "Fields (w # t) = [t]"
proof -
  obtain c cs where t: "t = c # cs" using assms(1) by (cases t) auto
  have d: "dropWhile isSpace (w # c # cs) = c # cs"
    using assms t by simp
  have tw: "takeWhile (\<lambda>x. \<not> isSpace x) (c # cs) = c # cs"
    using assms(2) t by simp
  have dw: "dropWhile (\<lambda>x. \<not> isSpace x) (c # cs) = []"
    using assms(2) t by simp
  have e: "Fields [] = []" by (subst Fields.simps) simp
  show ?thesis
    unfolding t by (subst Fields.simps) (simp only: d tw dw e list.case)
qed

lemma Split_prepend_no_sep:
  "sep \<notin> set a \<Longrightarrow> Split (a @ s) sep = (a @ hd (Split s sep)) # tl (Split s sep)"
  by (induction a) (auto simp: Let_def)

lemma Split_append_no_sep:
  "sep \<notin> set b \<Longrightarrow> Split (s @ b) sep = butlast (Split s sep) @ [last (Split s sep) @ b]"
proof (induction s)
  case Nil
  then show ?case by (simp add: Split_no_sep)
next
  case (Cons c s)
  obtain x xs where r: "Split s sep = x # xs"
    by (cases "Split s sep") auto
  show ?case
    using Cons r by (cases xs) (auto simp: Let_def)
qed

subsection \<open>What a successful parse says about the record\<close>

lemma extractLabelAndRawValue_Inr_D:
  assumes "extractLabelAndRawValue input = Inr (l, r)"
  shows "l = TrimSpace (Trim (takeWhile (\<lambda>c. c \<noteq> CHR ''='') input) [sq])"
    and "validatePerfDataLabelField l = None"
    and "r = TrimSpace (tl (dropWhile (\<lambda>c. c \<noteq> CHR ''='') input))"
    and "r \<noteq> []"
  using assms
  by (auto simp: extractLabelAndRawValue_def Let_def SplitN2_def split: if_splits option.splits)

lemma extractValueAndUoM_Inr_D:
  assumes "extractValueAndUoM input = Inr (v, u)"
  shows "(v = ''U'' \<and> u = [])
    \<or> (v = takeWhile isValueClass (dropWhile (\<lambda>c. \<not> isValueClass c) input)
       \<and> u = takeWhile isUoMClass (dropWhile isValueClass (dropWhile (\<lambda>c. \<not> isValueClass c) input))
       \<and> v \<noteq> [])"
proof (cases "input = ''U''")
  case True
  with assms show ?thesis by (auto simp: extractValueAndUoM_def)
next
  case False
  have ne: "input \<noteq> []"
    using assms by (auto simp: extractValueAndUoM_def)
  have "v \<noteq> []" using assms by (rule extractValueAndUoM_Inr_nonempty)
  then show ?thesis
    using assms extractValueAndUoM_leftmost [OF ne False]
    by (auto split: if_splits)
qed

lemma field_parsers_Inr_D:
  "parsePerfDataWarnField raw = Inr x \<Longrightarrow> x = TrimSpace raw \<and> validatePerfDataWarnField x = None"
  "parsePerfDataCritField raw = Inr x \<Longrightarrow> x = TrimSpace raw \<and> validatePerfDataCritField x = None"
  "parsePerfDataMinField raw = Inr x \<Longrightarrow> x = TrimSpace raw \<and> validatePerfDataMinField x = None"
  "parsePerfDataMaxField raw = Inr x \<Longrightarrow> x = TrimSpace raw \<and> validatePerfDataMaxField x = None"
  by (auto simp: parsePerfDataWarnField_def parsePerfDataCritField_def parsePerfDataMinField_def
      parsePerfDataMaxField_def Let_def split: option.splits)

lemma parsePerfData_Inr_D:
  assumes "parsePerfData t = Inr pd"
  shows "length (Split t CHR '';'') \<le> 5"
    and "\<exists>rawValue. extractLabelAndRawValue (Split t CHR '';'' ! 0) = Inr (Label pd, rawValue)
          \<and> extractValueAndUoM rawValue = Inr (Value pd, UnitOfMeasurement pd)"
    and "Warn pd = TrimSpace (if 2 \<le> length (Split t CHR '';'') then Split t CHR '';'' ! 1 else [])"
    and "Crit pd = TrimSpace (if 3 \<le> length (Split t CHR '';'') then Split t CHR '';'' ! 2 else [])"
    and "Min_pd pd = TrimSpace (if 4 \<le> length (Split t CHR '';'') then Split t CHR '';'' ! 3 else [])"
    and "Max_pd pd = TrimSpace (if 5 \<le> length (Split t CHR '';'') then Split t CHR '';'' ! 4 else [])"
    and "validatePerfDataWarnField (Warn pd) = None"
    and "validatePerfDataCritField (Crit pd) = None"
    and "validatePerfDataMinField (Min_pd pd) = None"
    and "validatePerfDataMaxField (Max_pd pd) = None"
proof -
  from assms obtain label rawValue val uom warn crit min_v max_v where
    len: "\<not> length (Split t CHR '';'') > perfDataMaxSemicolonSeparatedFields"
    and e1: "extractLabelAndRawValue (Split t CHR '';'' ! 0) = Inr (label, rawValue)"
    and e2: "extractValueAndUoM rawValue = Inr (val, uom)"
    and w: "parsePerfDataWarnField (fst (extractRawWarnCritMinMaxRawFieldVals (Split t CHR '';''))) = Inr warn"
    and c: "parsePerfDataCritField (fst (snd (extractRawWarnCritMinMaxRawFieldVals (Split t CHR '';'')))) = Inr crit"
    and mi: "parsePerfDataMinField (fst (snd (snd (extractRawWarnCritMinMaxRawFieldVals (Split t CHR '';''))))) = Inr min_v"
    and ma: "parsePerfDataMaxField (snd (snd (snd (extractRawWarnCritMinMaxRawFieldVals (Split t CHR '';''))))) = Inr max_v"
    and pd: "pd = \<lparr>Label = label, Value = val, UnitOfMeasurement = uom,
                 Warn = warn, Crit = crit, Min_pd = min_v, Max_pd = max_v\<rparr>"
    unfolding parsePerfData_def Let_def
    by (auto split: if_splits sum.splits prod.splits)
  show "length (Split t CHR '';'') \<le> 5"
    using len by (simp add: perfDataMaxSemicolonSeparatedFields_def)
  show "\<exists>rawValue. extractLabelAndRawValue (Split t CHR '';'' ! 0) = Inr (Label pd, rawValue)
          \<and> extractValueAndUoM rawValue = Inr (Value pd, UnitOfMeasurement pd)"
    using e1 e2 pd by auto
  show "Warn pd = TrimSpace (if 2 \<le> length (Split t CHR '';'') then Split t CHR '';'' ! 1 else [])"
    using field_parsers_Inr_D(1) [OF w] pd
    by (simp add: extractRawWarnCritMinMaxRawFieldVals_def Let_def)
  show "Crit pd = TrimSpace (if 3 \<le> length (Split t CHR '';'') then Split t CHR '';'' ! 2 else [])"
    using field_parsers_Inr_D(2) [OF c] pd
    by (simp add: extractRawWarnCritMinMaxRawFieldVals_def Let_def)
  show "Min_pd pd = TrimSpace (if 4 \<le> length (Split t CHR '';'') then Split t CHR '';'' ! 3 else [])"
    using field_parsers_Inr_D(3) [OF mi] pd
    by (simp add: extractRawWarnCritMinMaxRawFieldVals_def Let_def)
  show "Max_pd pd = TrimSpace (if 5 \<le> length (Split t CHR '';'') then Split t CHR '';'' ! 4 else [])"
    using field_parsers_Inr_D(4) [OF ma] pd
    by (simp add: extractRawWarnCritMinMaxRawFieldVals_def Let_def)
  show "validatePerfDataWarnField (Warn pd) = None"
    using field_parsers_Inr_D(1) [OF w] pd by auto
  show "validatePerfDataCritField (Crit pd) = None"
    using field_parsers_Inr_D(2) [OF c] pd by auto
  show "validatePerfDataMinField (Min_pd pd) = None"
    using field_parsers_Inr_D(3) [OF mi] pd by auto
  show "validatePerfDataMaxField (Max_pd pd) = None"
    using field_parsers_Inr_D(4) [OF ma] pd by auto
qed


lemma Split_nth_chars:
  assumes "i < length (Split t sep)"
  shows "set (Split t sep ! i) \<subseteq> set t" and "sep \<notin> set (Split t sep ! i)"
  using set_Split [of "Split t sep ! i" t sep] assms by auto

lemma token_field_plain:
  assumes "\<forall>c\<in>set t. \<not> isSpace c"
  shows "\<forall>c\<in>set (TrimSpace (if n \<le> length (Split t CHR '';'') then Split t CHR '';'' ! (n - 1) else [])).
           \<not> isSpace c \<and> c \<noteq> CHR '';''"
proof (cases "1 \<le> n \<and> n \<le> length (Split t CHR '';'')")
  case True
  then have "n - 1 < length (Split t CHR '';'')" by arith
  from Split_nth_chars [OF this] assms set_TrimSpace_subset [of "Split t CHR '';'' ! (n - 1)"]
  show ?thesis using True by auto
next
  case False
  then have "n = 0 \<or> \<not> n \<le> length (Split t CHR '';'')" by auto
  then show ?thesis
  proof
    assume "n = 0"
    then have "Split t CHR '';'' ! (n - 1) = Split t CHR '';'' ! 0" by simp
    moreover have "0 < length (Split t CHR '';'')" by simp
    ultimately show ?thesis
      using Split_nth_chars [of 0 t "CHR '';''"] assms
        set_TrimSpace_subset [of "Split t CHR '';'' ! 0"] by auto
  next
    assume "\<not> n \<le> length (Split t CHR '';'')"
    then show ?thesis by simp
  qed
qed

lemma hd_takeWhile_eq: "takeWhile P xs \<noteq> [] \<Longrightarrow> hd (takeWhile P xs) = hd xs"
  by (cases xs) (auto split: if_splits)

lemma set_tl_subset: "set (tl ys) \<subseteq> set ys"
  by (cases ys) auto

lemma set_tl_dropWhile_subset: "set (tl (dropWhile P xs)) \<subseteq> set xs"
  using set_tl_subset [of "dropWhile P xs"] set_dropWhileD [of _ P xs] by blast

lemma parsed_token_label:
  assumes p: "parsePerfData t = Inr pd" and ns: "\<forall>c\<in>set t. \<not> isSpace c"
  shows "Label pd \<noteq> []"
    and "\<forall>c\<in>set (Label pd). \<not> isSpace c \<and> c \<noteq> sq \<and> c \<noteq> CHR ''='' \<and> c \<noteq> CHR '';''"
proof -
  define f0 where "f0 = Split t CHR '';'' ! 0"
  have f0: "set f0 \<subseteq> set t" "CHR '';'' \<notin> set f0"
    unfolding f0_def by (rule Split_nth_chars, simp)+
  from parsePerfData_Inr_D(2) [OF p] obtain rawValue
    where e1: "extractLabelAndRawValue f0 = Inr (Label pd, rawValue)"
    unfolding f0_def by blast
  note d = extractLabelAndRawValue_Inr_D [OF e1]
  have "set (Label pd) \<subseteq> set (takeWhile (\<lambda>c. c \<noteq> CHR ''='') f0)"
    using d(1) set_TrimSpace_subset set_TrimFunc_subset unfolding Trim_def
    by (metis subset_trans)
  then have sub: "set (Label pd) \<subseteq> set f0"
    using set_takeWhileD by fastforce
  have "TrimSpace (Label pd) = Label pd"
    by (subst (2) d(1), subst d(1)) (rule TrimSpace_idem)
  then have "Label pd \<noteq> [] \<and> CHR ''='' \<notin> set (Label pd) \<and> sq \<notin> set (Label pd)"
    using d(2) by (simp add: validatePerfDataLabelField_None_iff)
  then show "Label pd \<noteq> []"
    and "\<forall>c\<in>set (Label pd). \<not> isSpace c \<and> c \<noteq> sq \<and> c \<noteq> CHR ''='' \<and> c \<noteq> CHR '';''"
    using sub f0 ns by auto
qed

lemma parsed_token_value_uom:
  assumes p: "parsePerfData t = Inr pd" and ns: "\<forall>c\<in>set t. \<not> isSpace c"
  shows "(Value pd = ''U'' \<and> UnitOfMeasurement pd = [])
    \<or> (Value pd \<noteq> [] \<and> (\<forall>c\<in>set (Value pd). isValueClass c)
       \<and> (\<forall>c\<in>set (UnitOfMeasurement pd). isUoMClass c \<and> \<not> isSpace c)
       \<and> (UnitOfMeasurement pd = [] \<or> \<not> isValueClass (hd (UnitOfMeasurement pd))))"
proof -
  define f0 where "f0 = Split t CHR '';'' ! 0"
  have f0: "set f0 \<subseteq> set t"
    unfolding f0_def by (rule Split_nth_chars) simp
  from parsePerfData_Inr_D(2) [OF p] obtain rawValue
    where e1: "extractLabelAndRawValue f0 = Inr (Label pd, rawValue)"
      and e2: "extractValueAndUoM rawValue = Inr (Value pd, UnitOfMeasurement pd)"
    unfolding f0_def by blast
  have "set rawValue \<subseteq> set (tl (dropWhile (\<lambda>c. c \<noteq> CHR ''='') f0))"
    using extractLabelAndRawValue_Inr_D(3) [OF e1] set_TrimSpace_subset by metis
  then have raw: "\<forall>c\<in>set rawValue. \<not> isSpace c"
    using set_tl_dropWhile_subset [of "\<lambda>c. c \<noteq> CHR ''=''" f0] f0 ns by blast
  define rest where "rest = dropWhile (\<lambda>c. \<not> isValueClass c) rawValue"
  define xs where "xs = dropWhile isValueClass rest"
  from extractValueAndUoM_Inr_D [OF e2]
  show ?thesis
  proof
    assume "Value pd = ''U'' \<and> UnitOfMeasurement pd = []"
    then show ?thesis by simp
  next
    assume "Value pd = takeWhile isValueClass (dropWhile (\<lambda>c. \<not> isValueClass c) rawValue)
       \<and> UnitOfMeasurement pd = takeWhile isUoMClass
            (dropWhile isValueClass (dropWhile (\<lambda>c. \<not> isValueClass c) rawValue))
       \<and> Value pd \<noteq> []"
    then have v: "Value pd = takeWhile isValueClass rest"
      and u: "UnitOfMeasurement pd = takeWhile isUoMClass xs" and ne: "Value pd \<noteq> []"
      unfolding rest_def xs_def by blast+
    have v_all: "\<forall>c\<in>set (Value pd). isValueClass c"
      unfolding v by (auto dest: set_takeWhileD)
    have "set xs \<subseteq> set rawValue"
      unfolding xs_def rest_def by (auto dest: set_dropWhileD)
    then have u_all: "\<forall>c\<in>set (UnitOfMeasurement pd). isUoMClass c \<and> \<not> isSpace c"
      unfolding u using raw by (auto dest: set_takeWhileD)
    have u_hd: "UnitOfMeasurement pd = [] \<or> \<not> isValueClass (hd (UnitOfMeasurement pd))"
    proof (cases "UnitOfMeasurement pd = []")
      case True
      then show ?thesis by simp
    next
      case False
      then have "hd (UnitOfMeasurement pd) = hd xs" and "xs \<noteq> []"
        unfolding u by (simp add: hd_takeWhile_eq, auto)
      then show ?thesis
        using hd_dropWhile [of isValueClass rest] unfolding xs_def by simp
    qed
    show ?thesis using ne v_all u_all u_hd by blast
  qed
qed

lemma parsed_token_thresholds:
  assumes p: "parsePerfData t = Inr pd" and ns: "\<forall>c\<in>set t. \<not> isSpace c"
  shows "\<forall>c\<in>set (Warn pd). \<not> isSpace c \<and> c \<noteq> CHR '';''"
    and "\<forall>c\<in>set (Crit pd). \<not> isSpace c \<and> c \<noteq> CHR '';''"
    and "\<forall>c\<in>set (Min_pd pd). \<not> isSpace c \<and> c \<noteq> CHR '';''"
    and "\<forall>c\<in>set (Max_pd pd). \<not> isSpace c \<and> c \<noteq> CHR '';''"
  using token_field_plain [OF ns, of 2] token_field_plain [OF ns, of 3]
    token_field_plain [OF ns, of 4] token_field_plain [OF ns, of 5]
    parsePerfData_Inr_D(3-6) [OF p]
  by simp_all

subsection \<open>Parsing the rendered text\<close>

lemma extractValueAndUoM_rendered:
  assumes "(V = ''U'' \<and> U = [])
    \<or> (V \<noteq> [] \<and> (\<forall>c\<in>set V. isValueClass c)
       \<and> (\<forall>c\<in>set U. isUoMClass c \<and> \<not> isSpace c)
       \<and> (U = [] \<or> \<not> isValueClass (hd U)))"
  shows "extractValueAndUoM (V @ U) = Inr (V, U)"
  using assms
proof
  assume "V = ''U'' \<and> U = []"
  then show ?thesis by (simp add: extractValueAndUoM_def)
next
  assume a: "V \<noteq> [] \<and> (\<forall>c\<in>set V. isValueClass c)
       \<and> (\<forall>c\<in>set U. isUoMClass c \<and> \<not> isSpace c)
       \<and> (U = [] \<or> \<not> isValueClass (hd U))"
  then obtain v vs where V: "V = v # vs" by (cases V) auto
  have v: "isValueClass v" using a V by simp
  have nU: "\<not> isValueClass CHR ''U''"
    by (simp add: isValueClass_def isDigit_def)
  have ne: "V @ U \<noteq> []" "V @ U \<noteq> ''U''"
    using V v nU by auto
  have d1: "dropWhile (\<lambda>c. \<not> isValueClass c) (V @ U) = V @ U"
    using V v by simp
  have tU: "takeWhile isValueClass U = []" and dU: "dropWhile isValueClass U = U"
    using a by (cases U; simp)+
  have t1: "takeWhile isValueClass (V @ U) = V"
    using a tU by (simp add: takeWhile_append)
  have d2: "dropWhile isValueClass (V @ U) = U"
    using a dU by (simp add: dropWhile_append)
  have t2: "takeWhile isUoMClass U = U"
    using a by simp
  have ex: "\<exists>c\<in>set (V @ U). isValueClass c"
    using V v by auto
  show ?thesis
    using extractValueAndUoM_leftmost [OF ne] ex by (simp only: d1 t1 d2 t2 if_True)
qed

lemma field_parsers_plain:
  assumes "\<forall>c\<in>set x. \<not> isSpace c \<and> c \<noteq> CHR '';''"
  shows "validatePerfDataWarnField x = None \<Longrightarrow> parsePerfDataWarnField x = Inr x"
    and "validatePerfDataCritField x = None \<Longrightarrow> parsePerfDataCritField x = Inr x"
    and "validatePerfDataMinField x = None \<Longrightarrow> parsePerfDataMinField x = Inr x"
    and "validatePerfDataMaxField x = None \<Longrightarrow> parsePerfDataMaxField x = Inr x"
proof -
  have "TrimSpace x = x" using assms by (simp add: TrimSpace_all_not)
  then show "validatePerfDataWarnField x = None \<Longrightarrow> parsePerfDataWarnField x = Inr x"
    and "validatePerfDataCritField x = None \<Longrightarrow> parsePerfDataCritField x = Inr x"
    and "validatePerfDataMinField x = None \<Longrightarrow> parsePerfDataMinField x = Inr x"
    and "validatePerfDataMaxField x = None \<Longrightarrow> parsePerfDataMaxField x = Inr x"
    by (simp_all add: parsePerfDataWarnField_def parsePerfDataCritField_def
        parsePerfDataMinField_def parsePerfDataMaxField_def)
qed

lemma extractLabelAndRawValue_rendered:
  assumes L1: "L \<noteq> []"
    and L2: "\<forall>c\<in>set L. \<not> isSpace c \<and> c \<noteq> sq \<and> c \<noteq> CHR ''='' \<and> c \<noteq> CHR '';''"
    and R1: "R \<noteq> []" and R2: "\<forall>c\<in>set R. \<not> isSpace c"
  shows "extractLabelAndRawValue (sq # L @ sq # CHR ''='' # R) = Inr (L, R)"
proof -
  have eq: "CHR ''='' \<noteq> sq" by (simp add: sq_def)
  have "CHR ''='' \<notin> set (sq # L @ [sq])"
    using L2 eq by auto
  then have "SplitN2 ((sq # L @ [sq]) @ CHR ''='' # R) CHR ''='' = [sq # L @ [sq], R]"
    by (rule SplitN2_first_sep)
  then have sp: "SplitN2 (sq # L @ sq # CHR ''='' # R) CHR ''='' = [sq # L @ [sq], R]"
    by simp
  have "sq \<notin> set L" using L2 by auto
  from Trim_quote_layers [OF this, of 1 1]
  have tr: "Trim (sq # L @ [sq]) [sq] = L" by simp
  have tl: "TrimSpace L = L" using L2 by (simp add: TrimSpace_all_not)
  have tr2: "TrimSpace R = R" using R2 by (simp add: TrimSpace_all_not)
  have vl: "validatePerfDataLabelField L = None"
    using L1 L2 tl by (auto simp: validatePerfDataLabelField_None_iff)
  show ?thesis
    using R1 by (simp add: extractLabelAndRawValue_def Let_def sp tr tl tr2 vl)
qed

lemma isValueClass_not_semicolon: "isValueClass c \<Longrightarrow> c \<noteq> CHR '';''"
  by (auto simp: isValueClass_def isDigit_def)

lemma isUoMClass_not_semicolon: "isUoMClass c \<Longrightarrow> c \<noteq> CHR '';''"
  by (simp add: isUoMClass_def)

lemma parse_rendered:
  assumes L1: "L \<noteq> []"
    and L2: "\<forall>c\<in>set L. \<not> isSpace c \<and> c \<noteq> sq \<and> c \<noteq> CHR ''='' \<and> c \<noteq> CHR '';''"
    and VU: "(V = ''U'' \<and> U = [])
      \<or> (V \<noteq> [] \<and> (\<forall>c\<in>set V. isValueClass c)
         \<and> (\<forall>c\<in>set U. isUoMClass c \<and> \<not> isSpace c)
         \<and> (U = [] \<or> \<not> isValueClass (hd U)))"
    and W: "\<forall>c\<in>set W. \<not> isSpace c \<and> c \<noteq> CHR '';''" "validatePerfDataWarnField W = None"
    and C: "\<forall>c\<in>set C. \<not> isSpace c \<and> c \<noteq> CHR '';''" "validatePerfDataCritField C = None"
    and Mi: "\<forall>c\<in>set Mi. \<not> isSpace c \<and> c \<noteq> CHR '';''" "validatePerfDataMinField Mi = None"
    and Ma: "\<forall>c\<in>set Ma. \<not> isSpace c \<and> c \<noteq> CHR '';''" "validatePerfDataMaxField Ma = None"
    and Ma_end: "Ma = [] \<or> last Ma \<noteq> dq"
  shows "ParsePerfData (PerformanceData_String
            \<lparr>Label = L, Value = V, UnitOfMeasurement = U, Warn = W, Crit = C,
             Min_pd = Mi, Max_pd = Ma\<rparr>)
         = Inr [\<lparr>Label = L, Value = V, UnitOfMeasurement = U, Warn = W, Crit = C,
                 Min_pd = Mi, Max_pd = Ma\<rparr>]"
proof -
  define f0 where "f0 = sq # L @ sq # CHR ''='' # V @ U"
  define t where "t = f0 @ CHR '';'' # W @ CHR '';'' # C @ CHR '';'' # Mi @ CHR '';'' # Ma"
  have str: "PerformanceData_String
      \<lparr>Label = L, Value = V, UnitOfMeasurement = U, Warn = W, Crit = C, Min_pd = Mi, Max_pd = Ma\<rparr>
      = CHR '' '' # t"
    by (simp add: PerformanceData_String_def t_def f0_def)
  have sqc: "\<not> isSpace sq" "sq \<noteq> CHR '';''" "CHR ''='' \<noteq> CHR '';''" "\<not> isSpace CHR ''=''"
    "\<not> isSpace CHR '';''" "isSpace CHR '' ''" "CHR '' '' \<noteq> dq" "CHR '';'' \<noteq> dq"
    by (simp_all add: sq_def dq_def isSpace_def)
  have VUp: "\<forall>c\<in>set (V @ U). \<not> isSpace c \<and> c \<noteq> CHR '';''"
    using VU
  proof
    assume "V = ''U'' \<and> U = []"
    then show ?thesis by (simp add: isSpace_def)
  next
    assume "V \<noteq> [] \<and> (\<forall>c\<in>set V. isValueClass c)
         \<and> (\<forall>c\<in>set U. isUoMClass c \<and> \<not> isSpace c)
         \<and> (U = [] \<or> \<not> isValueClass (hd U))"
    then have "\<forall>c\<in>set V. \<not> isSpace c \<and> c \<noteq> CHR '';''"
      and "\<forall>c\<in>set U. \<not> isSpace c \<and> c \<noteq> CHR '';''"
      using isValueClass_not_isSpace isValueClass_not_semicolon isUoMClass_not_semicolon
      by blast+
    then show ?thesis by (simp add: ball_Un)
  qed
  have VUne: "V @ U \<noteq> []" using VU by auto
  have "\<forall>c\<in>set L. \<not> isSpace c \<and> c \<noteq> CHR '';''"
    using L2 by blast
  then have f0p: "\<forall>c\<in>set f0. \<not> isSpace c \<and> c \<noteq> CHR '';''"
    using VUp unfolding f0_def by (simp add: ball_Un sqc)
  have nsp: "\<forall>c\<in>set f0. \<not> isSpace c" "\<forall>c\<in>set W. \<not> isSpace c" "\<forall>c\<in>set C. \<not> isSpace c"
    "\<forall>c\<in>set Mi. \<not> isSpace c" "\<forall>c\<in>set Ma. \<not> isSpace c"
    using f0p W(1) C(1) Mi(1) Ma(1) by simp_all
  have tp: "\<forall>c\<in>set t. \<not> isSpace c"
    unfolding t_def by (simp add: ball_Un nsp sqc(5))
  have tne: "t \<noteq> []" by (simp add: t_def)
  have "sq \<in> set (CHR '' '' # t)" by (simp add: t_def f0_def)
  then have "sq \<in> set (TrimSpace (CHR '' '' # t))"
    unfolding TrimSpace_def using sqc(1) by (rule TrimFunc_keeps)
  then have nonempty: "TrimSpace (CHR '' '' # t) \<noteq> []" by auto
  have "last t \<noteq> dq"
    using Ma_end sqc by (cases "Ma = []") (simp_all add: t_def)
  then have "Trim (CHR '' '' # t) [dq] = CHR '' '' # t"
    unfolding Trim_def using tne sqc by (intro TrimFunc_fixed) simp
  moreover have "Fields (CHR '' '' # t) = [t]"
    using tne tp sqc(6) by (rule Fields_leading_space_token)
  ultimately have toks: "Fields (Trim (CHR '' '' # t) [dq]) = [t]" by simp
  have sc: "CHR '';'' \<notin> set f0" "CHR '';'' \<notin> set W" "CHR '';'' \<notin> set C"
    "CHR '';'' \<notin> set Mi" "CHR '';'' \<notin> set Ma"
    using f0p W(1) C(1) Mi(1) Ma(1) by fastforce+
  have split: "Split t CHR '';'' = [f0, W, C, Mi, Ma]"
    unfolding t_def using sc by (simp add: Split_append_sep Split_no_sep)
  have e1: "extractLabelAndRawValue f0 = Inr (L, V @ U)"
    unfolding f0_def using L1 L2 VUne VUp by (intro extractLabelAndRawValue_rendered) auto
  have e2: "extractValueAndUoM (V @ U) = Inr (V, U)"
    using VU by (rule extractValueAndUoM_rendered)
  have raw: "extractRawWarnCritMinMaxRawFieldVals [f0, W, C, Mi, Ma] = (W, C, Mi, Ma)"
    by (simp add: extractRawWarnCritMinMaxRawFieldVals_def)
  have "parsePerfData t =
      Inr \<lparr>Label = L, Value = V, UnitOfMeasurement = U, Warn = W, Crit = C, Min_pd = Mi, Max_pd = Ma\<rparr>"
    by (simp add: parsePerfData_def split e1 e2 raw
        field_parsers_plain(1) [OF W] field_parsers_plain(2) [OF C]
        field_parsers_plain(3) [OF Mi] field_parsers_plain(4) [OF Ma]
        perfDataMinSemicolonSeparatedFields_def perfDataMaxSemicolonSeparatedFields_def)
  then show ?thesis
    using nonempty by (simp add: str ParsePerfData_def toks)
qed

lemma roundtrip_unless_trailing_dq:
  assumes p: "ParsePerfData s = Inr [pd]" and e: "Max_pd pd = [] \<or> last (Max_pd pd) \<noteq> dq"
  shows "ParsePerfData (PerformanceData_String pd) = Inr [pd]"
proof -
  from p have "list_all2 (\<lambda>t p. parsePerfData t = Inr p) (Fields (Trim s [dq])) [pd]"
    by (simp add: ParsePerfData_Inr_iff)
  then obtain t where toks: "Fields (Trim s [dq]) = [t]" and t: "parsePerfData t = Inr pd"
    by (auto simp: list_all2_Cons2)
  have "t \<in> set (Fields (Trim s [dq]))" by (simp add: toks)
  then have ns: "\<forall>c\<in>set t. \<not> isSpace c"
    using Fields_no_space by blast
  obtain L V U W C Mi Ma where pd: "pd =
      \<lparr>Label = L, Value = V, UnitOfMeasurement = U, Warn = W, Crit = C, Min_pd = Mi, Max_pd = Ma\<rparr>"
    by (cases pd) auto
  have sel: "Label pd = L" "Value pd = V" "UnitOfMeasurement pd = U" "Warn pd = W" "Crit pd = C"
    "Min_pd pd = Mi" "Max_pd pd = Ma"
    by (simp_all add: pd)
  show ?thesis
    unfolding pd
    using parsed_token_label [OF t ns] parsed_token_value_uom [OF t ns]
      parsed_token_thresholds [OF t ns] parsePerfData_Inr_D(7-10) [OF t] e
    unfolding sel
    by (intro parse_rendered)
qed

lemma Split_surrounded:
  assumes a: "sep \<notin> set a" and b: "sep \<notin> set b" and n: "2 \<le> length (Split (a @ t @ b) sep)"
  shows "length (Split t sep) = length (Split (a @ t @ b) sep)"
    and "last (Split (a @ t @ b) sep) = last (Split t sep) @ b"
proof -
  define S where "S = Split t sep"
  define X where "X = butlast S @ [last S @ b]"
  have S: "S \<noteq> []" by (simp add: S_def)
  have X: "Split (t @ b) sep = X"
    unfolding X_def S_def using b by (rule Split_append_no_sep)
  have m: "Split (a @ t @ b) sep = (a @ hd X) # tl X"
    using Split_prepend_no_sep [OF a, of "t @ b"] X by simp
  have lX: "length X = length S" using S by (simp add: X_def)
  have Xne: "X \<noteq> []" by (simp add: X_def)
  then have lm: "length ((a @ hd X) # tl X) = length X" by simp
  show "length (Split t sep) = length (Split (a @ t @ b) sep)"
    using m lm lX by (simp add: S_def)
  have "2 \<le> length X" using n m lm by simp
  then have "tl X \<noteq> []" by (cases X) auto
  then have "last ((a @ hd X) # tl X) = last (tl X)" by simp
  also have "\<dots> = last X" using \<open>tl X \<noteq> []\<close> by (simp add: last_tl)
  also have "\<dots> = last S @ b" by (simp add: X_def)
  finally show "last (Split (a @ t @ b) sep) = last (Split t sep) @ b"
    using m by (simp add: S_def)
qed

lemma well_formed_metric_Max:
  assumes wf: "well_formed_metric m" and p: "ParsePerfData m = Inr [pd]"
  shows "\<forall>c\<in>set (Max_pd pd). isValueClass c"
proof -
  from p have "list_all2 (\<lambda>t p. parsePerfData t = Inr p) (Fields (Trim m [dq])) [pd]"
    by (simp add: ParsePerfData_Inr_iff)
  then obtain t where toks: "Fields (Trim m [dq]) = [t]" and t: "parsePerfData t = Inr pd"
    by (auto simp: list_all2_Cons2)
  obtain q1 q2 where m: "m = q1 @ Trim m [dq] @ q2"
    and q: "\<forall>x\<in>set q1. x \<in> set [dq]" "\<forall>x\<in>set q2. x \<in> set [dq]"
    unfolding Trim_def using TrimFunc_decomp [of m "\<lambda>c. c \<in> set [dq]"] by blast
  obtain a b where tr: "Trim m [dq] = a @ t @ b"
    and ab: "\<forall>c\<in>set a. isSpace c" "\<forall>c\<in>set b. isSpace c"
    using Fields_single_decomp [OF toks] by blast
  have sc: "\<not> isSpace CHR '';''" "CHR '';'' \<noteq> dq"
    by (simp_all add: isSpace_def dq_def)
  have m': "m = (q1 @ a) @ t @ (b @ q2)"
    by (subst m) (simp add: tr)
  have na: "CHR '';'' \<notin> set (q1 @ a)" and nb: "CHR '';'' \<notin> set (b @ q2)"
    using q ab sc by fastforce+
  have len: "length (Split m CHR '';'') = 5"
    and cls: "\<forall>c\<in>set (Split m CHR '';'' ! 4). isValueClass c"
    using wf by (simp_all add: well_formed_metric_def Let_def list_all_iff)
  have n: "2 \<le> length (Split ((q1 @ a) @ t @ (b @ q2)) CHR '';'')"
    using len m' by simp
  note s = Split_surrounded [OF na nb n]
  have lt: "length (Split t CHR '';'') = 5"
    using s(1) len m' by simp
  have "Split m CHR '';'' ! 4 = last (Split m CHR '';'')"
    using len by (simp add: last_conv_nth)
  also have "\<dots> = last (Split t CHR '';'') @ (b @ q2)"
    using s(2) m' by simp
  finally have "set (last (Split t CHR '';'')) \<subseteq> set (Split m CHR '';'' ! 4)"
    by simp
  moreover have "Split t CHR '';'' ! 4 = last (Split t CHR '';'')"
    using lt by (simp add: last_conv_nth)
  moreover have "Max_pd pd = TrimSpace (Split t CHR '';'' ! 4)"
    using parsePerfData_Inr_D(6) [OF t] lt by simp
  ultimately have "set (Max_pd pd) \<subseteq> set (Split m CHR '';'' ! 4)"
    using set_TrimSpace_subset [of "Split t CHR '';'' ! 4"] by simp
  then show ?thesis using cls by blast
qed

subsection \<open>A digit after the unit\<close>








subsection \<open>The Warn and Crit validators\<close>

text \<open>
  Claim C4. The Warn validator, and in the same way the Crit validator, accepts its
  input exactly when the input is empty after trimming white space or holds a character
  of \<^verbatim>\<open>[0-9~@:]\<close> anywhere; characters outside the class do not matter. It rejects
  only a non-empty trimmed input with no character of the class.
\<close>

theorem warn_crit_validators_accept_iff:
  "(validatePerfDataWarnField s = None
      \<longleftrightarrow> TrimSpace s = [] \<or> (\<exists>c\<in>set s. isThresholdClass c))
   \<and> (validatePerfDataCritField s = None
      \<longleftrightarrow> TrimSpace s = [] \<or> (\<exists>c\<in>set s. isThresholdClass c))"
  using list_ex_TrimSpace [of isThresholdClass s, OF isThresholdClass_not_isSpace]
  by (simp add: validatePerfDataWarnField_def validatePerfDataCritField_def Let_def
      MatchString_perfDataThresholdRangeSyntaxRegex_def list_ex_iff)

theorem warn_crit_validators_accept_iff_witness:
  "validatePerfDataWarnField ''10x'' = None \<and> validatePerfDataCritField ''10x'' = None
   \<and> validatePerfDataWarnField ''abc'' \<noteq> None \<and> validatePerfDataCritField ''abc'' \<noteq> None
   \<and> validatePerfDataWarnField [] = None \<and> validatePerfDataCritField [] = None"
  using warn_crit_validators_accept_iff [of "''10x''"]
    warn_crit_validators_accept_iff [of "''abc''"]
    warn_crit_validators_accept_iff [of "[]"]
  by (simp add: isThresholdClass_def isDigit_def TrimSpace_def TrimFunc_def TrimLeftFunc_def
      TrimRightFunc_def isSpace_def)

subsection \<open>Rendering\<close>

text \<open>
  Claim C9. For every record, validated or not, \<^verbatim>\<open>String()\<close> is a space, the label
  between single quotes, \<^verbatim>\<open>=\<close>, the value and the unit with nothing between them, and
  then Warn, Crit, Min and Max, each after a semicolon that is there also when the
  field is empty. The zero record, which \<^verbatim>\<open>Validate\<close> rejects, renders all the same.
\<close>

theorem String_renders_canonical_form:
  "PerformanceData_String pd =
     '' '' @ [sq] @ Label pd @ [sq] @ ''='' @ Value pd @ UnitOfMeasurement pd
       @ '';'' @ Warn pd @ '';'' @ Crit pd @ '';'' @ Min_pd pd @ '';'' @ Max_pd pd
   \<and> PerformanceData_Validate PerformanceData_zero = Some ErrPerformanceDataMissingLabel
   \<and> PerformanceData_String PerformanceData_zero = '' '' @ [sq, sq] @ ''=;;;;''"
  by (simp add: PerformanceData_String_def PerformanceData_Validate_def PerformanceData_zero_def)

subsection \<open>Concrete inputs\<close>

text \<open>
  Claim C7. The batch strings \<^verbatim>\<open>load1=0.26;5;10;0;\<close> and \<^verbatim>\<open>load1=0.26;5;10;0\<close> parse
  to the same single record, whose Max is empty.
\<close>

theorem trailing_semicolon_same_record:
  "ParsePerfData ''load1=0.26;5;10;0;'' =
     Inr [\<lparr>Label = ''load1'', Value = ''0.26'', UnitOfMeasurement = [],
           Warn = ''5'', Crit = ''10'', Min_pd = ''0'', Max_pd = []\<rparr>]
   \<and> ParsePerfData ''load1=0.26;5;10;0'' =
     Inr [\<lparr>Label = ''load1'', Value = ''0.26'', UnitOfMeasurement = [],
           Warn = ''5'', Crit = ''10'', Min_pd = ''0'', Max_pd = []\<rparr>]"
  by code_simp

text \<open>
  Claim C8. The batch string \<^verbatim>\<open>users=U\<close> parses to a single record with Value
  \<^verbatim>\<open>U\<close> and an empty unit. The splitter returns on the input \<^verbatim>\<open>U\<close> before it
  applies the pattern: the pattern has no match in \<^verbatim>\<open>U\<close>, and a splitter that had
  applied it would have failed.
\<close>

theorem unknown_value_sentinel:
  "ParsePerfData ''users=U'' =
     Inr [\<lparr>Label = ''users'', Value = ''U'', UnitOfMeasurement = [],
           Warn = [], Crit = [], Min_pd = [], Max_pd = []\<rparr>]
   \<and> extractValueAndUoM ''U'' = Inr (''U'', [])
   \<and> FindStringSubmatch_perfDataValueAndUoMFieldsRegex ''U'' = []"
  by code_simp

text \<open>
  Claim C2. The batch string \<^verbatim>\<open>'response time'=120ms;200;500;;\<close> is said to parse to
  a record labelled \<^verbatim>\<open>response time\<close>. The batch is split at white space before any
  quote is looked at, so the first metric string is \<^verbatim>\<open>'response\<close>, which has no
  \<^verbatim>\<open>=\<close>, and the call fails.
\<close>

theorem quoted_label_with_space_fails:
  "Fields (Trim (sq # ''response time'' @ sq # ''=120ms;200;500;;'') [dq]) =
     [sq # ''response'', ''time'' @ sq # ''=120ms;200;500;;'']
   \<and> ParsePerfData (sq # ''response time'' @ sq # ''=120ms;200;500;;'') =
     Inl (Errorf ''failed to extract label and raw value: %w''
           (Errorf ''failed to obtain metric label and raw value from field %q: %w''
              ErrInvalidPerformanceDataFormat))"
  by code_simp

subsection \<open>Records of a successful parse\<close>

text \<open>
  Claim C10. Every record that a successful \<^verbatim>\<open>ParsePerfData\<close> call returns has a
  non-empty Label and a non-empty Value, so \<^verbatim>\<open>Validate\<close> returns no error on it.
\<close>

theorem parsed_records_validate:
  assumes "ParsePerfData s = Inr rs"
  shows "\<forall>pd\<in>set rs. Label pd \<noteq> [] \<and> Value pd \<noteq> [] \<and> PerformanceData_Validate pd = None"
proof
  fix pd
  assume pd: "pd \<in> set rs"
  from assms have "list_all2 (\<lambda>t p. parsePerfData t = Inr p) (Fields (Trim s [dq])) rs"
    by (simp add: ParsePerfData_Inr_iff)
  with pd obtain t where "parsePerfData t = Inr pd"
    by (auto simp: list_all2_conv_all_nth in_set_conv_nth)
  then have "Label pd \<noteq> [] \<and> Value pd \<noteq> []"
    by (rule parsePerfData_Inr_nonempty)
  then show "Label pd \<noteq> [] \<and> Value pd \<noteq> [] \<and> PerformanceData_Validate pd = None"
    by (simp add: PerformanceData_Validate_def)
qed

theorem parsed_records_validate_witness:
  "ParsePerfData ''load1=0.26;5;10;0; users=U'' =
     Inr [\<lparr>Label = ''load1'', Value = ''0.26'', UnitOfMeasurement = [],
           Warn = ''5'', Crit = ''10'', Min_pd = ''0'', Max_pd = []\<rparr>,
          \<lparr>Label = ''users'', Value = ''U'', UnitOfMeasurement = [],
           Warn = [], Crit = [], Min_pd = [], Max_pd = []\<rparr>]
   \<and> PerformanceData_Validate \<lparr>Label = ''load1'', Value = ''0.26'', UnitOfMeasurement = [],
           Warn = ''5'', Crit = ''10'', Min_pd = ''0'', Max_pd = []\<rparr> = None
   \<and> PerformanceData_Validate \<lparr>Label = ''users'', Value = ''U'', UnitOfMeasurement = [],
           Warn = [], Crit = [], Min_pd = [], Max_pd = []\<rparr> = None"
proof -
  have h: "ParsePerfData ''load1=0.26;5;10;0; users=U'' =
     Inr [\<lparr>Label = ''load1'', Value = ''0.26'', UnitOfMeasurement = [],
           Warn = ''5'', Crit = ''10'', Min_pd = ''0'', Max_pd = []\<rparr>,
          \<lparr>Label = ''users'', Value = ''U'', UnitOfMeasurement = [],
           Warn = [], Crit = [], Min_pd = [], Max_pd = []\<rparr>]"
    by code_simp
  show ?thesis
    using h parsed_records_validate [OF h] by simp
qed

subsection \<open>Rejected inputs\<close>




subsection \<open>Quotes around the label\<close>

text \<open>
  Claim C5, as amended. The tokenizer strips every leading and every trailing single
  quote of the label half, however many layers there are, and then the white space
  around what is left: a label inside \<open>n\<close> opening and \<open>k\<close> closing quotes comes out
  with no quote. When the value half is empty after trimming, the metric is rejected
  with an error wrapping \<^verbatim>\<open>ErrInvalidPerformanceDataFormat\<close>.
\<close>

theorem label_quote_layers_all_stripped:
  "(sq \<notin> set core \<and> CHR ''='' \<notin> set core \<and> TrimSpace core \<noteq> [] \<and> TrimSpace r \<noteq> []
      \<longrightarrow> extractLabelAndRawValue (replicate n sq @ core @ replicate k sq @ CHR ''='' # r)
            = Inr (TrimSpace core, TrimSpace r))
   \<and> (CHR ''='' \<notin> set l \<and> TrimSpace r = []
      \<longrightarrow> (\<exists>e. extractLabelAndRawValue (l @ CHR ''='' # r) = Inl e
               \<and> errors_Is e ErrInvalidPerformanceDataFormat))"
proof (intro conjI impI)
  assume a: "sq \<notin> set core \<and> CHR ''='' \<notin> set core \<and> TrimSpace core \<noteq> [] \<and> TrimSpace r \<noteq> []"
  have eq: "CHR ''='' \<noteq> sq" by (simp add: sq_def)
  then have "CHR ''='' \<notin> set (replicate n sq @ core @ replicate k sq)"
    using a by auto
  then have split: "SplitN2 ((replicate n sq @ core @ replicate k sq) @ CHR ''='' # r) CHR ''=''
      = [replicate n sq @ core @ replicate k sq, r]"
    by (rule SplitN2_first_sep)
  have "validatePerfDataLabelField (TrimSpace core) = None"
    using a set_TrimSpace_subset [of core]
    by (auto simp: validatePerfDataLabelField_None_iff)
  then show "extractLabelAndRawValue (replicate n sq @ core @ replicate k sq @ CHR ''='' # r)
      = Inr (TrimSpace core, TrimSpace r)"
    using a split by (simp add: extractLabelAndRawValue_def Let_def Trim_quote_layers)
next
  assume a: "CHR ''='' \<notin> set l \<and> TrimSpace r = []"
  then have "SplitN2 (l @ CHR ''='' # r) CHR ''='' = [l, r]"
    by (simp add: SplitN2_first_sep)
  then have "\<exists>e. extractLabelAndRawValue (l @ CHR ''='' # r) = Inl e"
    using a by (simp add: extractLabelAndRawValue_def Let_def split: option.splits)
  then show "\<exists>e. extractLabelAndRawValue (l @ CHR ''='' # r) = Inl e
      \<and> errors_Is e ErrInvalidPerformanceDataFormat"
    using extractLabelAndRawValue_wraps_root by blast
qed

theorem label_quote_layers_all_stripped_witness:
  "sq \<notin> set ''load 1'' \<and> CHR ''='' \<notin> set ''load 1'' \<and> TrimSpace ''load 1'' \<noteq> []
   \<and> TrimSpace '' 7ms'' \<noteq> []
   \<and> extractLabelAndRawValue (replicate 2 sq @ ''load 1'' @ replicate 2 sq @ CHR ''='' # '' 7ms'')
       = Inr (''load 1'', ''7ms'')
   \<and> CHR ''='' \<notin> set ''load1'' \<and> TrimSpace ''  '' = []
   \<and> (\<exists>e. extractLabelAndRawValue (''load1'' @ CHR ''='' # ''  '') = Inl e
          \<and> errors_Is e ErrInvalidPerformanceDataFormat)"
proof -
  have a: "sq \<notin> set ''load 1'' \<and> CHR ''='' \<notin> set ''load 1'' \<and> TrimSpace ''load 1'' \<noteq> []
      \<and> TrimSpace '' 7ms'' \<noteq> []"
    by code_simp
  have t: "TrimSpace ''load 1'' = ''load 1''" "TrimSpace '' 7ms'' = ''7ms''"
    by code_simp+
  have b: "CHR ''='' \<notin> set ''load1'' \<and> TrimSpace ''  '' = []"
    by code_simp
  show ?thesis
    using a b t
      label_quote_layers_all_stripped [where core = "''load 1''" and r = "'' 7ms''" and n = 2 and k = 2]
      label_quote_layers_all_stripped [where l = "''load1''" and r = "''  ''"]
    by simp
qed

text \<open>
  Claim C5 as stated says that one layer of quotes is stripped, so that a label in two
  layers keeps one. It keeps none, and the metric is accepted.
\<close>

theorem two_quote_layers_counterexample:
  "Trim ([sq, sq] @ ''a'' @ [sq, sq]) [sq] = ''a''
   \<and> extractLabelAndRawValue ([sq, sq] @ ''a'' @ [sq, sq] @ ''=1'') = Inr (''a'', ''1'')"
  by code_simp

subsection \<open>Splitting value and unit\<close>

text \<open>
  Claim C6, as amended. For a non-empty input other than \<^verbatim>\<open>U\<close>, the splitter fails
  exactly when the input has no character of \<^verbatim>\<open>[-0-9.]\<close>, with an error wrapping
  \<^verbatim>\<open>ErrInvalidPerformanceDataFormat\<close>. Otherwise Value is the longest run of the
  class that starts at the first such character, wherever it is in the input, and the
  unit is the longest run after it of characters other than digits, semicolons and
  quotes; what comes before Value and after the unit is dropped.
\<close>

theorem value_uom_splitter_leftmost_match:
  assumes "input \<noteq> []" and "input \<noteq> ''U''"
  shows "extractValueAndUoM input =
     (if \<exists>c\<in>set input. isValueClass c
      then Inr (takeWhile isValueClass (dropWhile (\<lambda>c. \<not> isValueClass c) input),
                takeWhile isUoMClass
                  (dropWhile isValueClass (dropWhile (\<lambda>c. \<not> isValueClass c) input)))
      else Inl (Errorf ''failed to extract Value and UoM fields from input string %q: %w''
                  ErrInvalidPerformanceDataFormat))"
  using assms by (rule extractValueAndUoM_leftmost)

theorem value_uom_splitter_leftmost_match_witness:
  "''x12.5ms;3'' \<noteq> [] \<and> ''x12.5ms;3'' \<noteq> ''U''
   \<and> extractValueAndUoM ''x12.5ms;3'' = Inr (''12.5'', ''ms'')
   \<and> ''abc'' \<noteq> [] \<and> ''abc'' \<noteq> ''U''
   \<and> extractValueAndUoM ''abc'' =
       Inl (Errorf ''failed to extract Value and UoM fields from input string %q: %w''
              ErrInvalidPerformanceDataFormat)"
proof -
  have a: "''x12.5ms;3'' \<noteq> []" "''x12.5ms;3'' \<noteq> ''U''" "''abc'' \<noteq> []" "''abc'' \<noteq> ''U''"
    by simp_all
  show ?thesis
    using value_uom_splitter_leftmost_match [OF a(1) a(2)]
      value_uom_splitter_leftmost_match [OF a(3) a(4)]
    by (simp add: isValueClass_def isUoMClass_def isDigit_def sq_def dq_def)
qed

text \<open>
  Claim C6 as stated says that an input whose first character is outside
  \<^verbatim>\<open>[-0-9.]\<close> cannot give a Value from the middle of the string. The pattern is not
  anchored: \<^verbatim>\<open>x5ms\<close> gives Value \<^verbatim>\<open>5\<close> and unit \<^verbatim>\<open>ms\<close>.
\<close>

theorem value_from_middle_counterexample:
  "\<not> isValueClass (hd ''x5ms'') \<and> extractValueAndUoM ''x5ms'' = Inr (''5'', ''ms'')"
  by code_simp

subsection \<open>Round trip\<close>

text \<open>
  Claim C1. Take a metric string in the documented format with all five fields
  (\<open>well_formed_metric\<close>) and a record that \<^verbatim>\<open>ParsePerfData\<close> produces from it.
  Rendering the record with \<^verbatim>\<open>String()\<close> and parsing the text again succeeds and
  gives a sequence of one record, equal to the original in all seven fields.
\<close>

theorem well_formed_metric_roundtrip:
  assumes "well_formed_metric m" and "ParsePerfData m = Inr [pd]"
  shows "ParsePerfData (PerformanceData_String pd) = Inr [pd]"
proof -
  have "\<not> isValueClass dq"
    by (simp add: isValueClass_def isDigit_def dq_def)
  moreover have "Max_pd pd \<noteq> [] \<Longrightarrow> last (Max_pd pd) \<in> set (Max_pd pd)"
    by simp
  ultimately have "Max_pd pd = [] \<or> last (Max_pd pd) \<noteq> dq"
    using well_formed_metric_Max [OF assms] by metis
  with assms(2) show ?thesis
    by (rule roundtrip_unless_trailing_dq)
qed

theorem well_formed_metric_roundtrip_witness:
  "well_formed_metric (sq # ''disk_/var'' @ sq # ''=12.5GB;80:;@90:95;0;250.5'')
   \<and> ParsePerfData (sq # ''disk_/var'' @ sq # ''=12.5GB;80:;@90:95;0;250.5'') =
       Inr [\<lparr>Label = ''disk_/var'', Value = ''12.5'', UnitOfMeasurement = ''GB'',
             Warn = ''80:'', Crit = ''@90:95'', Min_pd = ''0'', Max_pd = ''250.5''\<rparr>]
   \<and> ParsePerfData (PerformanceData_String
         \<lparr>Label = ''disk_/var'', Value = ''12.5'', UnitOfMeasurement = ''GB'',
           Warn = ''80:'', Crit = ''@90:95'', Min_pd = ''0'', Max_pd = ''250.5''\<rparr>) =
       Inr [\<lparr>Label = ''disk_/var'', Value = ''12.5'', UnitOfMeasurement = ''GB'',
             Warn = ''80:'', Crit = ''@90:95'', Min_pd = ''0'', Max_pd = ''250.5''\<rparr>]"
proof -
  have w: "well_formed_metric (sq # ''disk_/var'' @ sq # ''=12.5GB;80:;@90:95;0;250.5'')"
    by code_simp
  have p: "ParsePerfData (sq # ''disk_/var'' @ sq # ''=12.5GB;80:;@90:95;0;250.5'') =
       Inr [\<lparr>Label = ''disk_/var'', Value = ''12.5'', UnitOfMeasurement = ''GB'',
             Warn = ''80:'', Crit = ''@90:95'', Min_pd = ''0'', Max_pd = ''250.5''\<rparr>]"
    by code_simp
  show ?thesis
    using w p well_formed_metric_roundtrip [OF w p] by simp
qed

text \<open>
  The format matters for the last field. A batch whose Max ends in a double quote
  followed by white space is accepted, the validator looking only for one character of
  \<^verbatim>\<open>[-0-9.]\<close>; the rendered text then ends in that quote, and the second parse trims
  it away with the quotes around the batch.
\<close>

lemma roundtrip_fails_on_trailing_dq:
  "ParsePerfData (''a=1;;;;0'' @ [dq] @ '' '') =
     Inr [\<lparr>Label = ''a'', Value = ''1'', UnitOfMeasurement = [], Warn = [], Crit = [],
           Min_pd = [], Max_pd = ''0'' @ [dq]\<rparr>]
   \<and> ParsePerfData (PerformanceData_String
        \<lparr>Label = ''a'', Value = ''1'', UnitOfMeasurement = [], Warn = [], Crit = [],
           Min_pd = [], Max_pd = ''0'' @ [dq]\<rparr>) =
     Inr [\<lparr>Label = ''a'', Value = ''1'', UnitOfMeasurement = [], Warn = [], Crit = [],
           Min_pd = [], Max_pd = ''0''\<rparr>]"
  by code_simp

end
